theory Spec2Isabelle
  imports Main "HOL-Library.Word"
begin

section \<open>UDP traceroute: the hop loop of \<open>main\<close>\<close>

text \<open>
  The repository holds two versions of one program, \<open>main.go\<close> and a second file with
  longer comments (\<open>student-style-comments.go\<close>). Both consist of a single function
  \<open>main\<close>: it resolves the target, opens one ICMP listening connection, and then runs a
  \<open>for\<close> loop over \<open>ttl = 1 .. maxHops\<close>; each iteration opens a UDP socket, sets its TTL,
  sends an empty datagram, reads one ICMP reply with a deadline, and classifies it.

  Everything the operating system and the network do is an input of the model (\<open>env\<close>):
  whether each call succeeds, and what \<open>ReadFrom\<close> delivers in each iteration. Everything
  the program does that can be observed is an \<open>event\<close>, appended to the state's trace in
  program order. \<open>log.Fatalf\<close> prints and calls \<open>os.Exit(1)\<close>: deferred calls do not run.
\<close>

subsection \<open>Data\<close>

type_synonym byte = "8 word"
type_synonym addr = string

text \<open>The fields of \<open>icmp.Message\<close> that \<open>main\<close> can read; it reads \<open>Type\<close> only.\<close>

record icmp_message =
  Type :: nat
  Code :: nat

text \<open>
  \<open>icmp.ParseMessage(1, b)\<close> belongs to \<open>golang.org/x/net/icmp\<close>, not to this repository:
  it is a parameter of the model, \<open>None\<close> standing for a returned error.
\<close>

type_synonym decoder = "byte list \<Rightarrow> icmp_message option"

datatype program = Main_go | Student_style

datatype fatal =
    UsageError | ResolutionError | ListenSetupError
  | SendSocketError | SetTTLError | SendError

datatype event =
    PrintStart string addr
  | OpenICMP
  | PrintTTL nat
  | OpenUDP nat
  | SendUDP nat nat "byte list" addr nat
  | SetReadDeadline nat
  | PrintTimeout
  | LogReadError
  | LogParseError
  | PrintPeer addr
  | PrintTimeExceeded
  | PrintDestUnreachable
  | PrintDone
  | PrintUnknown nat
  | CloseUDP nat
  | CloseICMP
  | LogFatal fatal

text \<open>
  \<open>SendUDP c h payload ip port\<close>: connection \<open>c\<close> wrote \<open>payload\<close> to \<open>ip:port\<close> in a
  datagram whose IP hop limit is \<open>h\<close>, the TTL option of \<open>c\<close> at that moment.
\<close>

datatype status = Running | Returned | Exited

datatype read_result = ReadTimeout | ReadFailed | ReadOk addr "byte list"

record hop_io =
  listen_ok :: bool
  setttl_ok :: bool
  write_ok :: bool
  read_res :: read_result

record env =
  args :: "string list"
  resolve :: "string \<Rightarrow> addr option"
  icmp_listen_ok :: bool
  hops :: "nat \<Rightarrow> hop_io"

text \<open>The connection \<open>p\<close> of one iteration: which socket it is and its TTL option.\<close>

record udp_conn =
  conn_id :: nat
  conn_ttl :: nat

record state =
  ttl :: nat
  nsock :: nat
  deferred :: "event list"
  out :: "event list"
  status :: status

subsection \<open>Constants\<close>

definition maxHops :: nat where
  "maxHops = 30"

definition timeout :: nat where
  "timeout = 2"

definition destPort :: nat where
  "destPort = 33434"

definition ICMPTypeTimeExceeded :: nat where
  "ICMPTypeTimeExceeded = 11"

definition ICMPTypeDestinationUnreachable :: nat where
  "ICMPTypeDestinationUnreachable = 3"

definition defaultTTL :: nat where
  "defaultTTL = 64"

subsection \<open>Operations\<close>

definition emit :: "event \<Rightarrow> state \<Rightarrow> state" where
  "emit e s = s\<lparr>out := out s @ [e]\<rparr>"

text \<open>\<open>log.Fatalf\<close>: the message, then \<open>os.Exit(1)\<close>; no deferred call runs.\<close>

definition fatalf :: "fatal \<Rightarrow> state \<Rightarrow> state" where
  "fatalf k s = (emit (LogFatal k) s)\<lparr>status := Exited\<rparr>"

text \<open>\<open>defer f()\<close> pushes; returning from \<open>main\<close> runs the stack, last pushed first.\<close>

definition defer_call :: "event \<Rightarrow> state \<Rightarrow> state" where
  "defer_call e s = s\<lparr>deferred := e # deferred s\<rparr>"

definition return_from_main :: "state \<Rightarrow> state" where
  "return_from_main s = s\<lparr>out := out s @ deferred s, deferred := [], status := Returned\<rparr>"

text \<open>
  \<open>ReadFrom(buf)\<close> copies the datagram into the front of \<open>buf\<close>, cut at \<open>len(buf)\<close>, and
  returns the number of bytes copied; the rest of \<open>buf\<close> keeps what it held.
\<close>

definition ReadFrom :: "byte list \<Rightarrow> byte list \<Rightarrow> byte list \<times> nat" where
  "ReadFrom buf dgram =
     (take (length buf) dgram @ drop (length dgram) buf, min (length dgram) (length buf))"

text \<open>
  The one place where the two files differ in what they compute: \<open>main.go\<close> parses
  \<open>replyBytes[:n]\<close>, the other file drops \<open>n\<close> and parses \<open>replyBytes\<close>.
\<close>

definition parse_arg :: "program \<Rightarrow> byte list \<Rightarrow> nat \<Rightarrow> byte list" where
  "parse_arg prog replyBytes n =
     (case prog of Main_go \<Rightarrow> take n replyBytes | Student_style \<Rightarrow> replyBytes)"

text \<open>The \<open>switch icmpMessage.Type\<close> at the end of the loop body.\<close>

definition classify :: "icmp_message \<Rightarrow> state \<Rightarrow> state" where
  "classify icmpMessage s =
     (if Type icmpMessage = ICMPTypeTimeExceeded then emit PrintTimeExceeded s
      else if Type icmpMessage = ICMPTypeDestinationUnreachable then
        (emit PrintDone (emit PrintDestUnreachable s))\<lparr>status := Returned\<rparr>
      else emit (PrintUnknown (Type icmpMessage)) s)"

text \<open>Section 5 of the loop body: wait on the ICMP connection and handle what comes.\<close>

definition receive :: "program \<Rightarrow> decoder \<Rightarrow> read_result \<Rightarrow> state \<Rightarrow> state" where
  "receive prog pm r s =
     (let s1 = emit (SetReadDeadline timeout) s in
      case r of
        ReadTimeout \<Rightarrow> emit PrintTimeout s1
      | ReadFailed \<Rightarrow> emit LogReadError s1
      | ReadOk peerAddr dgram \<Rightarrow>
          (case ReadFrom (replicate 1500 0) dgram of
             (replyBytes, n) \<Rightarrow>
               (case pm (parse_arg prog replyBytes n) of
                  None \<Rightarrow> emit LogParseError s1
                | Some icmpMessage \<Rightarrow> classify icmpMessage (emit (PrintPeer peerAddr) s1))))"

text \<open>
  One pass through the loop body, up to but not including \<open>ttl++\<close>. A \<open>continue\<close> and
  falling off the end of the body both leave the status \<open>Running\<close>.
\<close>

definition iteration :: "program \<Rightarrow> decoder \<Rightarrow> addr \<Rightarrow> hop_io \<Rightarrow> state \<Rightarrow> state" where
  "iteration prog pm destIP io s =
     (let s1 = emit (PrintTTL (ttl s)) s in
      if \<not> listen_ok io then fatalf SendSocketError s1
      else
        let p = \<lparr>conn_id = nsock s1, conn_ttl = defaultTTL\<rparr>;
            s2 = (emit (OpenUDP (conn_id p)) s1)\<lparr>nsock := Suc (nsock s1)\<rparr>
        in
        if \<not> setttl_ok io then fatalf SetTTLError s2
        else
          let p = p\<lparr>conn_ttl := ttl s\<rparr>;
              s3 = defer_call (CloseUDP (conn_id p)) s2
          in
          if \<not> write_ok io then fatalf SendError s3
          else
            receive prog pm (read_res io)
              (emit (SendUDP (conn_id p) (conn_ttl p) [] destIP destPort) s3))"

text \<open>
  One round of \<open>for ttl := 1; ttl <= maxHops; ttl++ { body }\<close>: the body, then the post
  statement \<open>ttl++\<close>, which a \<open>continue\<close> reaches too; a \<open>return\<close> or an exit inside the
  body leaves the loop at once and skips it.
\<close>

definition loop_pass :: "program \<Rightarrow> decoder \<Rightarrow> addr \<Rightarrow> hop_io \<Rightarrow> state \<Rightarrow> state" where
  "loop_pass prog pm destIP io s =
     (let s' = iteration prog pm destIP io s in
      if status s' = Running then s'\<lparr>ttl := Suc (ttl s')\<rparr> else s')"

text \<open>The loop, entered with \<open>ttl\<close> already set; the condition is tested before each round.\<close>

function loop :: "program \<Rightarrow> decoder \<Rightarrow> addr \<Rightarrow> (nat \<Rightarrow> hop_io) \<Rightarrow> state \<Rightarrow> state" where
  "loop prog pm destIP hio s =
     (if ttl s \<le> maxHops then
        (let s' = loop_pass prog pm destIP (hio (ttl s)) s in
         if status s' = Running then loop prog pm destIP hio s' else s')
      else s)"
  by pat_completeness auto
termination
  by (relation "measure (\<lambda>(prog, pm, destIP, hio, s). Suc maxHops - ttl s)")
    (auto simp: loop_pass_def iteration_def receive_def classify_def emit_def fatalf_def
      defer_call_def Let_def split: read_result.splits prod.splits option.splits if_splits)

declare loop.simps [simp del]

definition init :: state where
  "init = \<lparr>ttl = 0, nsock = 0, deferred = [], out = [], status = Running\<rparr>"

text \<open>
  What follows the loop in \<open>main\<close>: nothing but the end of the function. After a
  \<open>log.Fatalf\<close> the process is gone; otherwise \<open>main\<close> returns, from inside the loop or by
  falling off its end, and the deferred calls run.
\<close>

definition finish :: "state \<Rightarrow> state" where
  "finish s = (if status s = Exited then s else return_from_main s)"

definition main :: "program \<Rightarrow> decoder \<Rightarrow> env \<Rightarrow> state" where
  "main prog pm e =
     (if length (args e) < 2 then fatalf UsageError init
      else
        let target = args e ! 1 in
        case resolve e target of
          None \<Rightarrow> fatalf ResolutionError init
        | Some destIP \<Rightarrow>
            (let s1 = emit (PrintStart target destIP) init in
             if \<not> icmp_listen_ok e then fatalf ListenSetupError s1
             else
               let s2 = defer_call CloseICMP (emit OpenICMP s1)
               in finish (loop prog pm destIP (hops e) (s2\<lparr>ttl := 1\<rparr>))))"

definition exit_code :: "state \<Rightarrow> nat" where
  "exit_code s = (if status s = Exited then 1 else 0)"

subsection \<open>Reading a trace\<close>

text \<open>What \<open>ParseMessage\<close> is given and returns for a datagram read into a fresh buffer.\<close>

definition decoded :: "program \<Rightarrow> decoder \<Rightarrow> byte list \<Rightarrow> icmp_message option" where
  "decoded prog pm dgram =
     (case ReadFrom (replicate 1500 0) dgram of
        (replyBytes, n) \<Rightarrow> pm (parse_arg prog replyBytes n))"

definition sends_ok :: "hop_io \<Rightarrow> bool" where
  "sends_ok io = (listen_ok io \<and> setttl_ok io \<and> write_ok io)"

text \<open>The reply of this hop decodes, and its type is destination unreachable.\<close>

definition reached :: "program \<Rightarrow> decoder \<Rightarrow> hop_io \<Rightarrow> bool" where
  "reached prog pm io =
     (case read_res io of
        ReadOk A dg \<Rightarrow>
          (case decoded prog pm dg of
             Some m \<Rightarrow> Type m = ICMPTypeDestinationUnreachable
           | None \<Rightarrow> False)
      | _ \<Rightarrow> False)"

text \<open>
  The reply kind "port unreachable" in ICMP terms: type 3, destination unreachable, with
  code 3. The program never computes it: its switch reads the type only.
\<close>

definition is_port_unreachable :: "icmp_message \<Rightarrow> bool" where
  "is_port_unreachable m = (Type m = 3 \<and> Code m = 3)"

definition ttl_printed :: "event \<Rightarrow> nat list" where
  "ttl_printed e = (case e of PrintTTL k \<Rightarrow> [k] | _ \<Rightarrow> [])"

definition reported_ttls :: "event list \<Rightarrow> nat list" where
  "reported_ttls evs = concat (map ttl_printed evs)"

text \<open>A probe on the wire: socket, hop limit, payload, destination address and port.\<close>

type_synonym probe = "nat \<times> nat \<times> byte list \<times> addr \<times> nat"

definition probe_of :: "event \<Rightarrow> probe list" where
  "probe_of e = (case e of SendUDP c h payload ip port \<Rightarrow> [(c, h, payload, ip, port)] | _ \<Rightarrow> [])"

definition probes :: "event list \<Rightarrow> probe list" where
  "probes evs = concat (map probe_of evs)"

text \<open>The hop limits of the probes sent, in the order of sending.\<close>

definition hop_limits :: "event list \<Rightarrow> nat list" where
  "hop_limits evs = map (\<lambda>p. fst (snd p)) (probes evs)"

definition opened_of :: "event \<Rightarrow> nat list" where
  "opened_of e = (case e of OpenUDP c \<Rightarrow> [c] | _ \<Rightarrow> [])"

definition opened :: "event list \<Rightarrow> nat list" where
  "opened evs = concat (map opened_of evs)"

text \<open>The state in which \<open>main\<close> enters the loop after a successful start.\<close>

definition loop_entry :: "string \<Rightarrow> addr \<Rightarrow> state" where
  "loop_entry target destIP =
     (defer_call CloseICMP (emit OpenICMP (emit (PrintStart target destIP) init)))\<lparr>ttl := 1\<rparr>"

subsection \<open>Sample inputs\<close>

text \<open>
  A decoder to run the program on: the header stage of an ICMPv4 decoder. A message
  shorter than the four-byte ICMP header is an error; otherwise type and code are the
  first two bytes. It stands in for the library only where a decoder has to be named.
\<close>

definition header_decoder :: decoder where
  "header_decoder b =
     (if length b < 4 then None else Some \<lparr>Type = unat (b ! 0), Code = unat (b ! 1)\<rparr>)"

definition good_io :: "read_result \<Rightarrow> hop_io" where
  "good_io r = \<lparr>listen_ok = True, setttl_ok = True, write_ok = True, read_res = r\<rparr>"

definition time_exceeded_dgram :: "byte list" where
  "time_exceeded_dgram = [11, 0, 0, 0, 0, 0, 0, 0]"

definition port_unreachable_dgram :: "byte list" where
  "port_unreachable_dgram = [3, 3, 0, 0, 0, 0, 0, 0]"

definition echo_reply_dgram :: "byte list" where
  "echo_reply_dgram = [0, 0, 0, 0, 0, 0, 0, 0]"

definition sample_env :: "(nat \<Rightarrow> hop_io) \<Rightarrow> env" where
  "sample_env hio =
     \<lparr>args = [''traceroute'', ''example.com''],
      resolve = (\<lambda>name. if name = ''example.com'' then Some ''93.184.216.34'' else None),
      icmp_listen_ok = True,
      hops = hio\<rparr>"

text \<open>
  The end-to-end scenario: hop 1 is silent, hop 2 answers time exceeded from 10.0.0.1,
  hop 3 answers destination unreachable from the target.
\<close>

definition scenario_hops :: "nat \<Rightarrow> hop_io" where
  "scenario_hops k =
     (if k = 1 then good_io ReadTimeout
      else if k = 2 then good_io (ReadOk ''10.0.0.1'' time_exceeded_dgram)
      else good_io (ReadOk ''93.184.216.34'' port_unreachable_dgram))"

text \<open>A network that never answers.\<close>

definition silent_hops :: "nat \<Rightarrow> hop_io" where
  "silent_hops k = good_io ReadTimeout"

text \<open>Hop 1 delivers two bytes, too few for an ICMP header; the target answers hop 2.\<close>

definition malformed_hops :: "nat \<Rightarrow> hop_io" where
  "malformed_hops k =
     (if k = 1 then good_io (ReadOk ''10.0.0.1'' [11, 0])
      else good_io (ReadOk ''93.184.216.34'' port_unreachable_dgram))"

text \<open>Hop 1 answers time exceeded; at hop 2 the write fails.\<close>

definition send_fail_hops :: "nat \<Rightarrow> hop_io" where
  "send_fail_hops k =
     (if k = 1 then good_io (ReadOk ''10.0.0.1'' time_exceeded_dgram)
      else (good_io ReadTimeout)\<lparr>write_ok := False\<rparr>)"


text \<open>The target is the first hop.\<close>

definition direct_hops :: "nat \<Rightarrow> hop_io" where
  "direct_hops k = good_io (ReadOk ''93.184.216.34'' port_unreachable_dgram)"

text \<open>No UDP socket can be opened.\<close>

definition no_socket_hops :: "nat \<Rightarrow> hop_io" where
  "no_socket_hops k = (good_io ReadTimeout)\<lparr>listen_ok := False\<rparr>"

text \<open>
  Hop 1 answers time exceeded; the router at hop 2 answers host unreachable, type 3 with
  code 1; the target would answer hop 3.
\<close>

definition host_unreachable_dgram :: "byte list" where
  "host_unreachable_dgram = [3, 1, 0, 0, 0, 0, 0, 0]"

definition host_unreachable_hops :: "nat \<Rightarrow> hop_io" where
  "host_unreachable_hops k =
     (if k = 1 then good_io (ReadOk ''10.0.0.1'' time_exceeded_dgram)
      else if k = 2 then good_io (ReadOk ''10.0.0.2'' host_unreachable_dgram)
      else good_io (ReadOk ''93.184.216.34'' port_unreachable_dgram))"

text \<open>Hop 1 answers with an echo reply, a type the switch does not name.\<close>

definition unknown_hops :: "nat \<Rightarrow> hop_io" where
  "unknown_hops k =
     (if k = 1 then good_io (ReadOk ''10.0.0.9'' echo_reply_dgram)
      else good_io (ReadOk ''93.184.216.34'' port_unreachable_dgram))"

subsection \<open>Basic facts\<close>

lemma ttl_emit [simp]: "ttl (emit e s) = ttl s"
  by (simp add: emit_def)

lemma ttl_fatalf [simp]: "ttl (fatalf k s) = ttl s"
  by (simp add: fatalf_def)

lemma ttl_defer_call [simp]: "ttl (defer_call e s) = ttl s"
  by (simp add: defer_call_def)

lemma ttl_classify [simp]: "ttl (classify m s) = ttl s"
  by (simp add: classify_def)

lemma ttl_receive [simp]: "ttl (receive prog pm r s) = ttl s"
  by (simp add: receive_def Let_def split: read_result.splits prod.splits option.splits)

lemma ttl_iteration [simp]: "ttl (iteration prog pm destIP io s) = ttl s"
  by (simp add: iteration_def Let_def)

lemmas body_defs = iteration_def receive_def classify_def emit_def fatalf_def defer_call_def
  Let_def sends_ok_def decoded_def

lemma reported_ttls_append [simp]: "reported_ttls (xs @ ys) = reported_ttls xs @ reported_ttls ys"
  by (simp add: reported_ttls_def)

lemma probes_append [simp]: "probes (xs @ ys) = probes xs @ probes ys"
  by (simp add: probes_def)

lemma opened_append [simp]: "opened (xs @ ys) = opened xs @ opened ys"
  by (simp add: opened_def)

lemma reported_ttls_Nil [simp]: "reported_ttls [] = []"
  by (simp add: reported_ttls_def)

lemma probes_Nil [simp]: "probes [] = []"
  by (simp add: probes_def)

lemma opened_Nil [simp]: "opened [] = []"
  by (simp add: opened_def)

lemma reported_ttls_Cons [simp]: "reported_ttls (e # evs) = ttl_printed e @ reported_ttls evs"
  by (simp add: reported_ttls_def)

lemma probes_Cons [simp]: "probes (e # evs) = probe_of e @ probes evs"
  by (simp add: probes_def)

lemma opened_Cons [simp]: "opened (e # evs) = opened_of e @ opened evs"
  by (simp add: opened_def)

lemma reported_iteration:
  "reported_ttls (out (iteration prog pm d io s)) = reported_ttls (out s) @ [ttl s]"
  by (simp add: body_defs ttl_printed_def split: read_result.splits prod.splits option.splits)

lemma probes_iteration:
  "probes (out (iteration prog pm d io s)) =
     probes (out s) @ (if sends_ok io then [(nsock s, ttl s, [], d, 33434)] else [])"
  by (simp add: body_defs probe_of_def destPort_def
      split: read_result.splits prod.splits option.splits)

lemma opened_iteration:
  "opened (out (iteration prog pm d io s)) =
     opened (out s) @ (if listen_ok io then [nsock s] else [])"
  by (simp add: body_defs opened_of_def split: read_result.splits prod.splits option.splits)

lemma nsock_iteration:
  "nsock (iteration prog pm d io s) = (if listen_ok io then Suc (nsock s) else nsock s)"
  by (simp add: body_defs split: read_result.splits prod.splits option.splits)

lemma status_iteration_fatal:
  "\<not> sends_ok io \<Longrightarrow> status (iteration prog pm d io s) = Exited"
  by (auto simp add: body_defs)

lemma status_iteration_sent:
  "sends_ok io \<Longrightarrow>
     status (iteration prog pm d io s) = (if reached prog pm io then Returned else status s)"
  by (auto simp add: body_defs reached_def ICMPTypeTimeExceeded_def
      ICMPTypeDestinationUnreachable_def split: read_result.splits prod.splits option.splits)

lemma status_iteration_Running:
  "status (iteration prog pm d io s) = Running \<Longrightarrow> sends_ok io"
  using status_iteration_fatal [of io prog pm d s] by auto

lemma done_iteration:
  "PrintDone \<in> set (out (iteration prog pm d io s)) \<longleftrightarrow>
     PrintDone \<in> set (out s) \<or> (sends_ok io \<and> reached prog pm io)"
  by (auto simp add: body_defs reached_def ICMPTypeTimeExceeded_def
      ICMPTypeDestinationUnreachable_def split: read_result.splits prod.splits option.splits)

lemma deferred_iteration:
  "deferred (iteration prog pm d io s) =
     (if listen_ok io \<and> setttl_ok io then CloseUDP (nsock s) # deferred s else deferred s)"
  by (simp add: body_defs split: read_result.splits prod.splits option.splits)

lemma out_iteration_head:
  "\<exists>evs. out (iteration prog pm d io s) = out s @ PrintTTL (ttl s) # evs"
  by (simp add: body_defs split: read_result.splits prod.splits option.splits)

lemma out_loop_pass [simp]: "out (loop_pass prog pm d io s) = out (iteration prog pm d io s)"
  by (simp add: loop_pass_def Let_def)

lemma status_loop_pass [simp]:
  "status (loop_pass prog pm d io s) = status (iteration prog pm d io s)"
  by (simp add: loop_pass_def Let_def)

lemma nsock_loop_pass [simp]:
  "nsock (loop_pass prog pm d io s) = nsock (iteration prog pm d io s)"
  by (simp add: loop_pass_def Let_def)

lemma deferred_loop_pass [simp]:
  "deferred (loop_pass prog pm d io s) = deferred (iteration prog pm d io s)"
  by (simp add: loop_pass_def Let_def)

lemma ttl_loop_pass:
  "ttl (loop_pass prog pm d io s) =
     (if status (iteration prog pm d io s) = Running then Suc (ttl s) else ttl s)"
  by (simp add: loop_pass_def Let_def)

lemma loop_over: "maxHops < ttl s \<Longrightarrow> loop prog pm d hio s = s"
  by (simp add: loop.simps)

lemma loop_stop:
  "ttl s \<le> maxHops \<Longrightarrow> status (iteration prog pm d (hio (ttl s)) s) \<noteq> Running \<Longrightarrow>
     loop prog pm d hio s = loop_pass prog pm d (hio (ttl s)) s"
  by (subst loop.simps) (simp add: Let_def)

lemma loop_step:
  "ttl s \<le> maxHops \<Longrightarrow> status (iteration prog pm d (hio (ttl s)) s) = Running \<Longrightarrow>
     loop prog pm d hio s = loop prog pm d hio (loop_pass prog pm d (hio (ttl s)) s)"
  by (subst loop.simps) (simp add: Let_def)

subsection \<open>The loop as a whole\<close>

lemma loop_probes:
  "ttl s \<le> Suc maxHops \<Longrightarrow>
   \<exists>m. ttl s \<le> Suc m \<and> m \<le> maxHops \<and>
     reported_ttls (out (loop prog pm d hio s)) = reported_ttls (out s) @ [ttl s..<Suc m] \<and>
     (status (loop prog pm d hio s) = Running \<longrightarrow> m = maxHops) \<and>
     (probes (out (loop prog pm d hio s)) =
        probes (out s) @ map (\<lambda>k. (nsock s + k - ttl s, k, [], d, 33434)) [ttl s..<Suc m] \<or>
      status (loop prog pm d hio s) = Exited \<and>
      probes (out (loop prog pm d hio s)) =
        probes (out s) @ map (\<lambda>k. (nsock s + k - ttl s, k, [], d, 33434)) [ttl s..<m])"
proof (induction prog pm d hio s rule: loop.induct)
  case (1 prog pm d hio s)
  let ?it = "iteration prog pm d (hio (ttl s)) s"
  let ?s' = "loop_pass prog pm d (hio (ttl s)) s"
  let ?f = "\<lambda>k. (nsock s + k - ttl s, k, [], d, 33434 :: nat)"
  let ?f' = "\<lambda>k. (nsock ?s' + k - ttl ?s', k, [], d, 33434 :: nat)"
  show ?case
  proof (cases "ttl s \<le> maxHops")
    case False
    with "1.prems" have k: "ttl s = Suc maxHops" by simp
    have "loop prog pm d hio s = s" using False by (simp add: loop_over)
    then show ?thesis using k by (intro exI [of _ maxHops]) simp
  next
    case True
    show ?thesis
    proof (cases "status ?it = Running")
      case run: True
      then have ok: "sends_ok (hio (ttl s))"
        by (rule status_iteration_Running)
      have l: "loop prog pm d hio s = loop prog pm d hio ?s'"
        using True run by (rule loop_step)
      have t': "ttl ?s' = Suc (ttl s)" using run by (simp add: ttl_loop_pass)
      have n': "nsock ?it = Suc (nsock s)"
        using ok by (simp add: nsock_iteration sends_ok_def)
      have ff: "?f' = ?f" by (simp add: t' n')
      have "\<exists>m. ttl ?s' \<le> Suc m \<and> m \<le> maxHops \<and>
        reported_ttls (out (loop prog pm d hio ?s')) = reported_ttls (out ?s') @ [ttl ?s'..<Suc m] \<and>
        (status (loop prog pm d hio ?s') = Running \<longrightarrow> m = maxHops) \<and>
        (probes (out (loop prog pm d hio ?s')) =
           probes (out ?s') @ map ?f' [ttl ?s'..<Suc m] \<or>
         status (loop prog pm d hio ?s') = Exited \<and>
         probes (out (loop prog pm d hio ?s')) = probes (out ?s') @ map ?f' [ttl ?s'..<m])"
        using True run t' by (intro "1.IH") simp_all
      then obtain m where m: "Suc (ttl s) \<le> Suc m" "m \<le> maxHops"
        "reported_ttls (out (loop prog pm d hio ?s')) =
           reported_ttls (out ?it) @ [Suc (ttl s)..<Suc m]"
        "status (loop prog pm d hio ?s') = Running \<longrightarrow> m = maxHops"
        "probes (out (loop prog pm d hio ?s')) =
           probes (out ?it) @ map ?f [Suc (ttl s)..<Suc m] \<or>
         status (loop prog pm d hio ?s') = Exited \<and>
         probes (out (loop prog pm d hio ?s')) = probes (out ?it) @ map ?f [Suc (ttl s)..<m]"
        unfolding ff unfolding t' out_loop_pass by blast
      have km: "ttl s \<le> m" using m(1) by simp
      have e1: "[ttl s..<Suc m] = ttl s # [Suc (ttl s)..<Suc m]"
        by (rule upt_conv_Cons) (use km in simp)
      have r: "reported_ttls (out (loop prog pm d hio s)) =
          reported_ttls (out s) @ [ttl s..<Suc m]"
        using m(3) by (simp add: l reported_iteration e1 del: upt_Suc)
      have p0: "probes (out ?it) = probes (out s) @ [?f (ttl s)]"
        using ok by (simp add: probes_iteration)
      have p: "probes (out (loop prog pm d hio s)) =
           probes (out s) @ map ?f [ttl s..<Suc m] \<or>
         status (loop prog pm d hio s) = Exited \<and>
         probes (out (loop prog pm d hio s)) = probes (out s) @ map ?f [ttl s..<m]"
      proof -
        from m(5) show ?thesis
        proof
          assume "probes (out (loop prog pm d hio ?s')) =
            probes (out ?it) @ map ?f [Suc (ttl s)..<Suc m]"
          then have "probes (out (loop prog pm d hio s)) =
            probes (out s) @ map ?f [ttl s..<Suc m]"
            by (simp add: l p0 e1 del: upt_Suc)
          then show ?thesis ..
        next
          assume a: "status (loop prog pm d hio ?s') = Exited \<and>
            probes (out (loop prog pm d hio ?s')) = probes (out ?it) @ map ?f [Suc (ttl s)..<m]"
          show ?thesis
          proof (cases "ttl s < m")
            case True
            then have "probes (out (loop prog pm d hio s)) =
              probes (out s) @ map ?f [ttl s..<m]"
              using a by (simp add: l p0 upt_conv_Cons)
            then show ?thesis using a by (simp add: l)
          next
            case False
            then have "m = ttl s" using km by simp
            then have "probes (out (loop prog pm d hio s)) =
              probes (out s) @ map ?f [ttl s..<Suc m]"
              using a by (simp add: l p0)
            then show ?thesis ..
          qed
        qed
      qed
      show ?thesis
        using km m(2) r m(4) p by (intro exI [of _ m]) (simp add: l)
    next
      case stop: False
      have l: "loop prog pm d hio s = ?s'" using True stop by (rule loop_stop)
      have r: "reported_ttls (out (loop prog pm d hio s)) =
          reported_ttls (out s) @ [ttl s..<Suc (ttl s)]"
        by (simp add: l reported_iteration)
      show ?thesis
      proof (cases "sends_ok (hio (ttl s))")
        case True
        then have "probes (out (loop prog pm d hio s)) =
          probes (out s) @ map ?f [ttl s..<Suc (ttl s)]"
          by (simp add: l probes_iteration)
        then show ?thesis
          using \<open>ttl s \<le> maxHops\<close> r stop by (intro exI [of _ "ttl s"]) (simp add: l)
      next
        case False
        then have "status (loop prog pm d hio s) = Exited \<and>
          probes (out (loop prog pm d hio s)) = probes (out s) @ map ?f [ttl s..<ttl s]"
          by (simp add: l probes_iteration status_iteration_fatal)
        then show ?thesis
          using \<open>ttl s \<le> maxHops\<close> r stop by (intro exI [of _ "ttl s"]) (simp add: l)
      qed
    qed
  qed
qed

lemma loop_deferred:
  "\<exists>n. nsock s \<le> n \<and>
     deferred (loop prog pm d hio s) = map CloseUDP (rev [nsock s..<n]) @ deferred s"
proof (induction prog pm d hio s rule: loop.induct)
  case (1 prog pm d hio s)
  let ?it = "iteration prog pm d (hio (ttl s)) s"
  let ?s' = "loop_pass prog pm d (hio (ttl s)) s"
  show ?case
  proof (cases "ttl s \<le> maxHops")
    case False
    then have "loop prog pm d hio s = s" by (simp add: loop_over)
    then show ?thesis by (intro exI [of _ "nsock s"]) simp
  next
    case True
    show ?thesis
    proof (cases "status ?it = Running")
      case run: True
      then have ok: "sends_ok (hio (ttl s))"
        by (rule status_iteration_Running)
      have l: "loop prog pm d hio s = loop prog pm d hio ?s'"
        using True run by (rule loop_step)
      have n': "nsock ?it = Suc (nsock s)"
        using ok by (simp add: nsock_iteration sends_ok_def)
      have d': "deferred ?it = CloseUDP (nsock s) # deferred s"
        using ok by (simp add: deferred_iteration sends_ok_def)
      have "\<exists>n. nsock ?s' \<le> n \<and>
        deferred (loop prog pm d hio ?s') = map CloseUDP (rev [nsock ?s'..<n]) @ deferred ?s'"
        using True run by (intro "1.IH") simp_all
      then obtain n where n: "Suc (nsock s) \<le> n"
        "deferred (loop prog pm d hio ?s') =
           map CloseUDP (rev [Suc (nsock s)..<n]) @ CloseUDP (nsock s) # deferred s"
        by (auto simp: n' d')
      have "[nsock s..<n] = nsock s # [Suc (nsock s)..<n]"
        by (rule upt_conv_Cons) (use n(1) in simp)
      then show ?thesis using n by (intro exI [of _ n]) (simp add: l)
    next
      case stop: False
      have l: "loop prog pm d hio s = ?s'" using True stop by (rule loop_stop)
      show ?thesis
      proof (cases "listen_ok (hio (ttl s)) \<and> setttl_ok (hio (ttl s))")
        case True
        then show ?thesis
          by (intro exI [of _ "Suc (nsock s)"]) (simp add: l deferred_iteration)
      next
        case False
        then show ?thesis
          by (intro exI [of _ "nsock s"]) (auto simp add: l deferred_iteration)
      qed
    qed
  qed
qed

lemma loop_done:
  "PrintDone \<in> set (out (loop prog pm d hio s)) \<Longrightarrow>
     PrintDone \<in> set (out s) \<or>
     (\<exists>k. ttl s \<le> k \<and> k \<le> maxHops \<and> sends_ok (hio k) \<and> reached prog pm (hio k))"
proof (induction prog pm d hio s rule: loop.induct)
  case (1 prog pm d hio s)
  let ?it = "iteration prog pm d (hio (ttl s)) s"
  let ?s' = "loop_pass prog pm d (hio (ttl s)) s"
  show ?case
  proof (cases "ttl s \<le> maxHops")
    case False
    then have "loop prog pm d hio s = s" by (simp add: loop_over)
    then show ?thesis using "1.prems" by simp
  next
    case True
    have it: "PrintDone \<in> set (out ?it) \<Longrightarrow> ?thesis"
      using True by (auto simp: done_iteration)
    show ?thesis
    proof (cases "status ?it = Running")
      case run: True
      have l: "loop prog pm d hio s = loop prog pm d hio ?s'"
        using True run by (rule loop_step)
      have t': "ttl ?s' = Suc (ttl s)" using run by (simp add: ttl_loop_pass)
      have "PrintDone \<in> set (out ?s') \<or>
        (\<exists>k. ttl ?s' \<le> k \<and> k \<le> maxHops \<and> sends_ok (hio k) \<and> reached prog pm (hio k))"
        using True run "1.prems" by (intro "1.IH") (simp_all add: l)
      then show ?thesis
      proof
        assume "PrintDone \<in> set (out ?s')"
        then show ?thesis using it by simp
      next
        assume "\<exists>k. ttl ?s' \<le> k \<and> k \<le> maxHops \<and> sends_ok (hio k) \<and> reached prog pm (hio k)"
        then obtain k where "Suc (ttl s) \<le> k" "k \<le> maxHops" "sends_ok (hio k)"
          "reached prog pm (hio k)" unfolding t' by blast
        then have "ttl s \<le> k \<and> k \<le> maxHops \<and> sends_ok (hio k) \<and> reached prog pm (hio k)"
          by simp
        then show ?thesis by blast
      qed
    next
      case stop: False
      have l: "loop prog pm d hio s = ?s'" using True stop by (rule loop_stop)
      show ?thesis using "1.prems" it by (simp add: l)
    qed
  qed
qed

lemma loop_silent:
  "\<forall>k. ttl s \<le> k \<and> k \<le> maxHops \<longrightarrow> sends_ok (hio k) \<and> \<not> reached prog pm (hio k) \<Longrightarrow>
     status (loop prog pm d hio s) = status s"
proof (induction prog pm d hio s rule: loop.induct)
  case (1 prog pm d hio s)
  let ?it = "iteration prog pm d (hio (ttl s)) s"
  let ?s' = "loop_pass prog pm d (hio (ttl s)) s"
  show ?case
  proof (cases "ttl s \<le> maxHops")
    case False
    then show ?thesis by (simp add: loop_over)
  next
    case True
    then have st: "status ?it = status s"
      using "1.prems" by (simp add: status_iteration_sent)
    show ?thesis
    proof (cases "status ?it = Running")
      case run: True
      have l: "loop prog pm d hio s = loop prog pm d hio ?s'"
        using True run by (rule loop_step)
      have t': "ttl ?s' = Suc (ttl s)" using run by (simp add: ttl_loop_pass)
      have "status (loop prog pm d hio ?s') = status ?s'"
        using True run "1.prems" by (intro "1.IH") (simp_all add: t')
      then show ?thesis using st by (simp add: l)
    next
      case stop: False
      have l: "loop prog pm d hio s = ?s'" using True stop by (rule loop_stop)
      show ?thesis using st by (simp add: l)
    qed
  qed
qed

lemma loop_out_grows: "\<exists>evs. out (loop prog pm d hio s) = out s @ evs"
proof (induction prog pm d hio s rule: loop.induct)
  case (1 prog pm d hio s)
  let ?it = "iteration prog pm d (hio (ttl s)) s"
  let ?s' = "loop_pass prog pm d (hio (ttl s)) s"
  obtain evs where it: "out ?it = out s @ PrintTTL (ttl s) # evs"
    using out_iteration_head by blast
  show ?case
  proof (cases "ttl s \<le> maxHops")
    case False
    then show ?thesis by (simp add: loop_over)
  next
    case True
    show ?thesis
    proof (cases "status ?it = Running")
      case run: True
      have l: "loop prog pm d hio s = loop prog pm d hio ?s'"
        using True run by (rule loop_step)
      have "\<exists>evs. out (loop prog pm d hio ?s') = out ?s' @ evs"
        using True run by (intro "1.IH") simp_all
      then show ?thesis using it by (auto simp add: l)
    next
      case stop: False
      have l: "loop prog pm d hio s = ?s'" using True stop by (rule loop_stop)
      show ?thesis using it by (simp add: l)
    qed
  qed
qed

lemma loop_out_head:
  assumes "ttl s \<le> maxHops"
  shows "\<exists>evs. out (loop prog pm d hio s) = out s @ PrintTTL (ttl s) # evs"
proof -
  let ?it = "iteration prog pm d (hio (ttl s)) s"
  let ?s' = "loop_pass prog pm d (hio (ttl s)) s"
  obtain evs where it: "out ?it = out s @ PrintTTL (ttl s) # evs"
    using out_iteration_head by blast
  show ?thesis
  proof (cases "status ?it = Running")
    case True
    have l: "loop prog pm d hio s = loop prog pm d hio ?s'"
      using assms True by (rule loop_step)
    obtain r where "out (loop prog pm d hio ?s') = out ?s' @ r"
      using loop_out_grows by blast
    then show ?thesis using it by (simp add: l)
  next
    case False
    have l: "loop prog pm d hio s = ?s'" using assms False by (rule loop_stop)
    show ?thesis using it by (simp add: l)
  qed
qed

lemma loop_opened:
  "opened (out (loop prog pm d hio s)) =
     opened (out s) @ [nsock s..<nsock (loop prog pm d hio s)] \<and>
   nsock s \<le> nsock (loop prog pm d hio s)"
proof (induction prog pm d hio s rule: loop.induct)
  case (1 prog pm d hio s)
  let ?it = "iteration prog pm d (hio (ttl s)) s"
  let ?s' = "loop_pass prog pm d (hio (ttl s)) s"
  have it: "opened (out ?it) = opened (out s) @ [nsock s..<nsock ?it] \<and> nsock s \<le> nsock ?it"
    by (simp add: opened_iteration nsock_iteration)
  show ?case
  proof (cases "ttl s \<le> maxHops")
    case False
    then show ?thesis by (simp add: loop_over)
  next
    case True
    show ?thesis
    proof (cases "status ?it = Running")
      case run: True
      have l: "loop prog pm d hio s = loop prog pm d hio ?s'"
        using True run by (rule loop_step)
      have "opened (out (loop prog pm d hio ?s')) =
          opened (out ?s') @ [nsock ?s'..<nsock (loop prog pm d hio ?s')] \<and>
        nsock ?s' \<le> nsock (loop prog pm d hio ?s')"
        using True run by (intro "1.IH") simp_all
      then have ih: "opened (out (loop prog pm d hio ?s')) =
          opened (out ?it) @ [nsock ?it..<nsock (loop prog pm d hio ?s')]"
        "nsock ?it \<le> nsock (loop prog pm d hio ?s')"
        by simp_all
      have "[nsock s..<nsock ?it] @ [nsock ?it..<nsock (loop prog pm d hio ?s')] =
        [nsock s..<nsock (loop prog pm d hio ?s')]"
        using it ih(2) by (metis le_Suc_ex upt_add_eq_append)
      then show ?thesis using it ih by (simp add: l)
    next
      case stop: False
      have l: "loop prog pm d hio s = ?s'" using True stop by (rule loop_stop)
      show ?thesis using it by (simp add: l)
    qed
  qed
qed

lemma loop_probe_sockets:
  "fst ` set (probes (out s)) \<subseteq> set (opened (out s)) \<Longrightarrow>
   fst ` set (probes (out (loop prog pm d hio s))) \<subseteq> set (opened (out (loop prog pm d hio s)))"
proof (induction prog pm d hio s rule: loop.induct)
  case (1 prog pm d hio s)
  let ?it = "iteration prog pm d (hio (ttl s)) s"
  let ?s' = "loop_pass prog pm d (hio (ttl s)) s"
  have it: "fst ` set (probes (out ?it)) \<subseteq> set (opened (out ?it))"
    using "1.prems" by (auto simp add: probes_iteration opened_iteration sends_ok_def)
  show ?case
  proof (cases "ttl s \<le> maxHops")
    case False
    then show ?thesis using "1.prems" by (simp add: loop_over)
  next
    case True
    show ?thesis
    proof (cases "status ?it = Running")
      case run: True
      have l: "loop prog pm d hio s = loop prog pm d hio ?s'"
        using True run by (rule loop_step)
      show ?thesis
        unfolding l using True run it by (intro "1.IH") simp_all
    next
      case stop: False
      have l: "loop prog pm d hio s = ?s'" using True stop by (rule loop_stop)
      show ?thesis using it by (simp add: l)
    qed
  qed
qed

lemma probes_closes [simp]: "probes (map CloseUDP cs) = []"
  by (induction cs) (simp_all add: probe_of_def)

lemma reported_closes [simp]: "reported_ttls (map CloseUDP cs) = []"
  by (induction cs) (simp_all add: ttl_printed_def)

lemma opened_closes [simp]: "opened (map CloseUDP cs) = []"
  by (induction cs) (simp_all add: opened_of_def)

lemma main_started:
  "2 \<le> length (args e) \<Longrightarrow> resolve e (args e ! 1) = Some dest \<Longrightarrow> icmp_listen_ok e \<Longrightarrow>
     main prog pm e = finish (loop prog pm dest (hops e) (loop_entry (args e ! 1) dest))"
  by (simp add: main_def loop_entry_def Let_def)

lemma main_not_started:
  "\<not> (2 \<le> length (args e) \<and> resolve e (args e ! 1) \<noteq> None \<and> icmp_listen_ok e) \<Longrightarrow>
     status (main prog pm e) = Exited \<and> probes (out (main prog pm e)) = [] \<and>
     reported_ttls (out (main prog pm e)) = [] \<and> opened (out (main prog pm e)) = [] \<and>
     PrintDone \<notin> set (out (main prog pm e))"
  by (auto simp add: main_def Let_def fatalf_def emit_def init_def probe_of_def ttl_printed_def
      opened_of_def split: option.splits)

lemma loop_entry_simps [simp]:
  "ttl (loop_entry t dest) = 1" "nsock (loop_entry t dest) = 0"
  "status (loop_entry t dest) = Running" "deferred (loop_entry t dest) = [CloseICMP]"
  "out (loop_entry t dest) = [PrintStart t dest, OpenICMP]"
  by (simp_all add: loop_entry_def defer_call_def emit_def init_def)

lemma loop_finish_closes:
  "deferred s = [CloseICMP] \<Longrightarrow> status (loop prog pm d hio s) \<noteq> Exited \<Longrightarrow>
     \<exists>cs. out (finish (loop prog pm d hio s)) =
       out (loop prog pm d hio s) @ map CloseUDP cs @ [CloseICMP]"
  using loop_deferred [of s prog pm d hio]
  by (auto simp add: finish_def return_from_main_def)

lemma finish_Exited: "status s = Exited \<Longrightarrow> finish s = s"
  by (simp add: finish_def)

lemma status_finish: "status (finish s) = (if status s = Exited then Exited else Returned)"
  by (simp add: finish_def return_from_main_def)

lemma main_summary:
  "\<exists>m n dest. n \<le> m \<and> m \<le> Suc n \<and> m \<le> maxHops \<and>
     reported_ttls (out (main prog pm e)) = [1..<Suc m] \<and>
     probes (out (main prog pm e)) = map (\<lambda>k. (k - 1, k, [], dest, 33434)) [1..<Suc n] \<and>
     (n < m \<longrightarrow> status (main prog pm e) = Exited) \<and>
     (0 < n \<longrightarrow> resolve e (args e ! 1) = Some dest)"
proof (cases "2 \<le> length (args e) \<and> resolve e (args e ! 1) \<noteq> None \<and> icmp_listen_ok e")
  case False
  then show ?thesis
    using main_not_started [of e prog pm] by (intro exI [of _ 0]) simp
next
  case True
  then obtain dest where dest: "resolve e (args e ! 1) = Some dest" by auto
  let ?s = "loop_entry (args e ! 1) dest"
  let ?l = "loop prog pm dest (hops e) ?s"
  let ?f = "\<lambda>k. (k - 1, k, [], dest, 33434 :: nat)"
  have mn: "main prog pm e = finish ?l"
    using True dest by (simp add: main_started)
  have "ttl ?s \<le> Suc maxHops" by (simp add: maxHops_def)
  from loop_probes [OF this, of prog pm dest "hops e"]
  obtain m where m: "1 \<le> Suc m" "m \<le> maxHops"
    "reported_ttls (out ?l) = [1..<Suc m]"
    "probes (out ?l) = map ?f [1..<Suc m] \<or>
       status ?l = Exited \<and> probes (out ?l) = map ?f [1..<m]"
    by (auto simp add: ttl_printed_def probe_of_def)
  have fin: "reported_ttls (out (finish ?l)) = reported_ttls (out ?l) \<and>
    probes (out (finish ?l)) = probes (out ?l)"
  proof (cases "status ?l = Exited")
    case True
    then show ?thesis by (simp add: finish_Exited)
  next
    case False
    then obtain cs where "out (finish ?l) = out ?l @ map CloseUDP cs @ [CloseICMP]"
      using loop_finish_closes [of ?s prog pm dest "hops e"] by auto
    then show ?thesis by (simp add: ttl_printed_def probe_of_def)
  qed
  from m(4) show ?thesis
  proof
    assume "probes (out ?l) = map ?f [1..<Suc m]"
    then show ?thesis
      using m(2,3) fin dest by (intro exI [of _ m] exI [of _ dest]) (simp add: mn)
  next
    assume a: "status ?l = Exited \<and> probes (out ?l) = map ?f [1..<m]"
    show ?thesis
    proof (cases m)
      case 0
      then show ?thesis
        using a m(2,3) fin dest by (intro exI [of _ 0] exI [of _ dest]) (simp add: mn)
    next
      case (Suc n)
      then show ?thesis
        using a m(2,3) fin dest
        by (intro exI [of _ m] exI [of _ n] exI [of _ dest]) (simp add: mn status_finish)
    qed
  qed
qed

subsection \<open>One round, case by case\<close>

lemma pass_timeout:
  "status s = Running \<Longrightarrow> sends_ok io \<Longrightarrow> read_res io = ReadTimeout \<Longrightarrow>
   loop_pass prog pm d io s =
     s\<lparr>ttl := Suc (ttl s), nsock := Suc (nsock s),
       deferred := CloseUDP (nsock s) # deferred s,
       out := out s @ [PrintTTL (ttl s), OpenUDP (nsock s),
         SendUDP (nsock s) (ttl s) [] d 33434, SetReadDeadline 2, PrintTimeout]\<rparr>"
  by (simp add: loop_pass_def body_defs timeout_def destPort_def)

lemma pass_undecoded:
  "status s = Running \<Longrightarrow> sends_ok io \<Longrightarrow> read_res io = ReadOk A dg \<Longrightarrow>
   decoded prog pm dg = None \<Longrightarrow>
   loop_pass prog pm d io s =
     s\<lparr>ttl := Suc (ttl s), nsock := Suc (nsock s),
       deferred := CloseUDP (nsock s) # deferred s,
       out := out s @ [PrintTTL (ttl s), OpenUDP (nsock s),
         SendUDP (nsock s) (ttl s) [] d 33434, SetReadDeadline 2, LogParseError]\<rparr>"
  by (simp add: loop_pass_def body_defs timeout_def destPort_def split: prod.splits)

lemma pass_time_exceeded:
  "status s = Running \<Longrightarrow> sends_ok io \<Longrightarrow> read_res io = ReadOk A dg \<Longrightarrow>
   decoded prog pm dg = Some m \<Longrightarrow> Type m = ICMPTypeTimeExceeded \<Longrightarrow>
   loop_pass prog pm d io s =
     s\<lparr>ttl := Suc (ttl s), nsock := Suc (nsock s),
       deferred := CloseUDP (nsock s) # deferred s,
       out := out s @ [PrintTTL (ttl s), OpenUDP (nsock s),
         SendUDP (nsock s) (ttl s) [] d 33434, SetReadDeadline 2, PrintPeer A,
         PrintTimeExceeded]\<rparr>"
  by (simp add: loop_pass_def body_defs timeout_def destPort_def split: prod.splits)

lemma pass_unreachable:
  "sends_ok io \<Longrightarrow> read_res io = ReadOk A dg \<Longrightarrow>
   decoded prog pm dg = Some m \<Longrightarrow> Type m = ICMPTypeDestinationUnreachable \<Longrightarrow>
   loop_pass prog pm d io s =
     s\<lparr>nsock := Suc (nsock s),
       deferred := CloseUDP (nsock s) # deferred s,
       out := out s @ [PrintTTL (ttl s), OpenUDP (nsock s),
         SendUDP (nsock s) (ttl s) [] d 33434, SetReadDeadline 2, PrintPeer A,
         PrintDestUnreachable, PrintDone],
       status := Returned\<rparr>"
  by (simp add: loop_pass_def body_defs timeout_def destPort_def ICMPTypeTimeExceeded_def
      ICMPTypeDestinationUnreachable_def split: prod.splits)

lemma pass_other:
  "status s = Running \<Longrightarrow> sends_ok io \<Longrightarrow> read_res io = ReadOk A dg \<Longrightarrow>
   decoded prog pm dg = Some m \<Longrightarrow> Type m \<noteq> ICMPTypeTimeExceeded \<Longrightarrow>
   Type m \<noteq> ICMPTypeDestinationUnreachable \<Longrightarrow>
   loop_pass prog pm d io s =
     s\<lparr>ttl := Suc (ttl s), nsock := Suc (nsock s),
       deferred := CloseUDP (nsock s) # deferred s,
       out := out s @ [PrintTTL (ttl s), OpenUDP (nsock s),
         SendUDP (nsock s) (ttl s) [] d 33434, SetReadDeadline 2, PrintPeer A,
         PrintUnknown (Type m)]\<rparr>"
  by (simp add: loop_pass_def body_defs timeout_def destPort_def split: prod.splits)

lemma pass_fatal:
  "\<not> sends_ok io \<Longrightarrow>
   loop_pass prog pm d io s =
     (if \<not> listen_ok io then
        s\<lparr>out := out s @ [PrintTTL (ttl s), LogFatal SendSocketError], status := Exited\<rparr>
      else if \<not> setttl_ok io then
        s\<lparr>nsock := Suc (nsock s),
          out := out s @ [PrintTTL (ttl s), OpenUDP (nsock s), LogFatal SetTTLError],
          status := Exited\<rparr>
      else
        s\<lparr>nsock := Suc (nsock s), deferred := CloseUDP (nsock s) # deferred s,
          out := out s @ [PrintTTL (ttl s), OpenUDP (nsock s), LogFatal SendError],
          status := Exited\<rparr>)"
  by (auto simp add: loop_pass_def body_defs)

lemma loop_continues:
  assumes "ttl s \<le> maxHops" "status (loop_pass prog pm d (hio (ttl s)) s) = Running"
  shows "loop prog pm d hio s = loop prog pm d hio (loop_pass prog pm d (hio (ttl s)) s) \<and>
    (ttl s < maxHops \<longrightarrow>
       (\<exists>rest. out (loop prog pm d hio s) =
          out (loop_pass prog pm d (hio (ttl s)) s) @ PrintTTL (Suc (ttl s)) # rest)) \<and>
    (ttl s = maxHops \<longrightarrow> loop prog pm d hio s = loop_pass prog pm d (hio (ttl s)) s)"
proof -
  let ?s' = "loop_pass prog pm d (hio (ttl s)) s"
  have run: "status (iteration prog pm d (hio (ttl s)) s) = Running"
    using assms(2) by simp
  have l: "loop prog pm d hio s = loop prog pm d hio ?s'"
    using assms(1) run by (rule loop_step)
  have t': "ttl ?s' = Suc (ttl s)" using run by (simp add: ttl_loop_pass)
  have a: "\<exists>rest. out (loop prog pm d hio ?s') = out ?s' @ PrintTTL (Suc (ttl s)) # rest"
    if "ttl s < maxHops"
    using loop_out_head [of ?s' prog pm d hio] that by (simp add: t' del: out_loop_pass)
  have b: "loop prog pm d hio ?s' = ?s'" if "ttl s = maxHops"
  proof (rule loop_over)
    show "maxHops < ttl ?s'" unfolding t' using that by simp
  qed
  show ?thesis using l a b by (auto simp del: out_loop_pass)
qed

lemma status_iteration_Returned:
  "status s = Running \<Longrightarrow>
     status (iteration prog pm d io s) = Returned \<longleftrightarrow> sends_ok io \<and> reached prog pm io"
  using status_iteration_fatal [of io prog pm d s] status_iteration_sent [of io prog pm d s]
  by (cases "sends_ok io") auto

lemma receive_out:
  "\<exists>rest. out (receive prog pm r s) = out s @ SetReadDeadline 2 # rest \<and>
     probes rest = [] \<and> opened rest = [] \<and> reported_ttls rest = []"
  by (auto simp add: receive_def classify_def emit_def Let_def timeout_def probe_of_def
      opened_of_def ttl_printed_def split: read_result.splits prod.splits option.splits)

lemma iteration_sent:
  assumes "sends_ok io"
  shows "\<exists>rest. out (iteration prog pm d io s) =
       out s @ [PrintTTL (ttl s), OpenUDP (nsock s), SendUDP (nsock s) (ttl s) [] d 33434,
         SetReadDeadline 2] @ rest \<and>
       probes rest = [] \<and> opened rest = [] \<and> reported_ttls rest = []"
proof -
  let ?s3 = "s\<lparr>nsock := Suc (nsock s), deferred := CloseUDP (nsock s) # deferred s,
    out := out s @ [PrintTTL (ttl s), OpenUDP (nsock s),
      SendUDP (nsock s) (ttl s) [] d 33434]\<rparr>"
  have it: "iteration prog pm d io s = receive prog pm (read_res io) ?s3"
    using assms
    by (simp add: iteration_def sends_ok_def emit_def defer_call_def Let_def destPort_def)
  obtain rest where r: "out (receive prog pm (read_res io) ?s3) =
      out ?s3 @ SetReadDeadline 2 # rest"
    "probes rest = []" "opened rest = []" "reported_ttls rest = []"
    using receive_out [of prog pm "read_res io" ?s3] by blast
  show ?thesis
    unfolding it using r by (intro exI [of _ rest]) simp
qed

lemma main_out_finish:
  "probes (out (finish (loop prog pm d hio (loop_entry t d)))) =
     probes (out (loop prog pm d hio (loop_entry t d))) \<and>
   opened (out (finish (loop prog pm d hio (loop_entry t d)))) =
     opened (out (loop prog pm d hio (loop_entry t d))) \<and>
   reported_ttls (out (finish (loop prog pm d hio (loop_entry t d)))) =
     reported_ttls (out (loop prog pm d hio (loop_entry t d))) \<and>
   (PrintDone \<in> set (out (finish (loop prog pm d hio (loop_entry t d)))) \<longleftrightarrow>
     PrintDone \<in> set (out (loop prog pm d hio (loop_entry t d))))"
proof (cases "status (loop prog pm d hio (loop_entry t d)) = Exited")
  case True
  then show ?thesis by (simp add: finish_Exited)
next
  case False
  then obtain cs where "out (finish (loop prog pm d hio (loop_entry t d))) =
      out (loop prog pm d hio (loop_entry t d)) @ map CloseUDP cs @ [CloseICMP]"
    using loop_finish_closes [of "loop_entry t d" prog pm d hio] by auto
  then show ?thesis by (auto simp add: ttl_printed_def probe_of_def opened_of_def)
qed

lemmas sample_defs = sends_ok_def good_io_def decoded_def ReadFrom_def parse_arg_def
  header_decoder_def time_exceeded_dgram_def port_unreachable_dgram_def echo_reply_dgram_def
  host_unreachable_dgram_def

subsection \<open>Closing the ICMP connection\<close>

lemmas run_defs = main_def sample_env_def sample_defs loop.simps loop_pass_def
  body_defs finish_def return_from_main_def init_def maxHops_def timeout_def destPort_def
  ICMPTypeTimeExceeded_def ICMPTypeDestinationUnreachable_def exit_code_def

lemma close_iteration:
  "CloseICMP \<in> set (out (iteration prog pm d io s)) \<longleftrightarrow> CloseICMP \<in> set (out s)"
  by (auto simp add: body_defs split: read_result.splits prod.splits option.splits)

lemma loop_close:
  "CloseICMP \<in> set (out (loop prog pm d hio s)) \<longleftrightarrow> CloseICMP \<in> set (out s)"
proof (induction prog pm d hio s rule: loop.induct)
  case (1 prog pm d hio s)
  let ?it = "iteration prog pm d (hio (ttl s)) s"
  let ?s' = "loop_pass prog pm d (hio (ttl s)) s"
  show ?case
  proof (cases "ttl s \<le> maxHops")
    case False
    then show ?thesis by (simp add: loop_over)
  next
    case True
    show ?thesis
    proof (cases "status ?it = Running")
      case run: True
      have l: "loop prog pm d hio s = loop prog pm d hio ?s'"
        using True run by (rule loop_step)
      have "CloseICMP \<in> set (out (loop prog pm d hio ?s')) \<longleftrightarrow> CloseICMP \<in> set (out ?s')"
        using True run by (intro "1.IH") simp_all
      then show ?thesis by (simp add: l close_iteration)
    next
      case stop: False
      have l: "loop prog pm d hio s = ?s'" using True stop by (rule loop_stop)
      show ?thesis by (simp add: l close_iteration)
    qed
  qed
qed

text \<open>
  On the paths where \<open>main\<close> returns, the destination reached or the ceiling passed, the
  deferred calls run and the last of them closes the ICMP connection.
\<close>

lemma main_return_closes_icmp:
  assumes "status (main prog pm e) = Returned"
  shows "\<exists>evs. out (main prog pm e) = evs @ [CloseICMP]"
proof (cases "2 \<le> length (args e) \<and> resolve e (args e ! 1) \<noteq> None \<and> icmp_listen_ok e")
  case False
  then show ?thesis using main_not_started [of e prog pm] assms by simp
next
  case True
  then obtain dst where dst: "resolve e (args e ! 1) = Some dst" by auto
  let ?l = "loop prog pm dst (hops e) (loop_entry (args e ! 1) dst)"
  have mf: "main prog pm e = finish ?l"
    using True dst by (simp add: main_started)
  have "status ?l \<noteq> Exited" using assms by (simp add: mf status_finish split: if_splits)
  then obtain cs where "out (finish ?l) = out ?l @ map CloseUDP cs @ [CloseICMP]"
    using loop_finish_closes [of "loop_entry (args e ! 1) dst" prog pm dst "hops e"] by auto
  then have "out (main prog pm e) = (out ?l @ map CloseUDP cs) @ [CloseICMP]"
    by (simp add: mf)
  then show ?thesis by blast
qed

text \<open>On every path that ends in \<open>log.Fatalf\<close> the ICMP connection is never closed.\<close>

lemma main_exit_leaves_icmp_open:
  assumes "status (main prog pm e) = Exited"
  shows "CloseICMP \<notin> set (out (main prog pm e))"
proof (cases "2 \<le> length (args e) \<and> resolve e (args e ! 1) \<noteq> None \<and> icmp_listen_ok e")
  case False
  then show ?thesis
    by (auto simp add: main_def Let_def fatalf_def emit_def init_def split: option.splits)
next
  case True
  then obtain dst where dst: "resolve e (args e ! 1) = Some dst" by auto
  let ?l = "loop prog pm dst (hops e) (loop_entry (args e ! 1) dst)"
  have mf: "main prog pm e = finish ?l"
    using True dst by (simp add: main_started)
  have ex: "status ?l = Exited" using assms by (simp add: mf status_finish split: if_splits)
  then have "main prog pm e = ?l" by (simp add: mf finish_Exited)
  then show ?thesis by (simp add: loop_close)
qed

subsection \<open>The two files side by side\<close>

lemma receive_decoded:
  "receive prog pm (ReadOk A dg) s =
     (case decoded prog pm dg of
        None \<Rightarrow> emit LogParseError (emit (SetReadDeadline timeout) s)
      | Some m \<Rightarrow> classify m (emit (PrintPeer A) (emit (SetReadDeadline timeout) s)))"
  by (simp add: receive_def decoded_def Let_def split: prod.splits)

lemma receive_agree:
  assumes "\<And>A dg. r = ReadOk A dg \<Longrightarrow> decoded Student_style pm dg = decoded Main_go pm dg"
  shows "receive Student_style pm r s = receive Main_go pm r s"
proof (cases r)
  case (ReadOk A dg)
  then show ?thesis using assms by (simp add: receive_decoded)
qed (simp_all add: receive_def)

lemma loop_pass_agree:
  assumes "\<And>A dg. read_res io = ReadOk A dg \<Longrightarrow>
    decoded Student_style pm dg = decoded Main_go pm dg"
  shows "loop_pass Student_style pm d io s = loop_pass Main_go pm d io s"
proof -
  have "receive Student_style pm (read_res io) s' = receive Main_go pm (read_res io) s'" for s'
    using assms by (rule receive_agree)
  then show ?thesis by (simp add: loop_pass_def iteration_def Let_def)
qed

text \<open>
  Where the decoder gives the same answer for the received bytes and for the whole
  zero-padded buffer, the two files run alike.
\<close>

lemma loop_agree:
  assumes "\<And>k A dg. read_res (hio k) = ReadOk A dg \<Longrightarrow>
    decoded Student_style pm dg = decoded Main_go pm dg"
  shows "loop Student_style pm d hio s = loop Main_go pm d hio s"
proof (induction "Suc maxHops - ttl s" arbitrary: s)
  case 0
  then have "maxHops < ttl s" by simp
  then show ?case by (simp add: loop_over)
next
  case (Suc n)
  let ?s' = "loop_pass Main_go pm d (hio (ttl s)) s"
  have p: "loop_pass Student_style pm d (hio (ttl s)) s = ?s'"
    using assms by (rule loop_pass_agree)
  have le: "ttl s \<le> maxHops" using Suc(2) by simp
  show ?case
  proof (cases "status ?s' = Running")
    case True
    then have t': "ttl ?s' = Suc (ttl s)" by (simp add: ttl_loop_pass)
    have "n = Suc maxHops - ttl ?s'" using Suc(2) t' by simp
    then have ih: "loop Student_style pm d hio ?s' = loop Main_go pm d hio ?s'"
      by (rule Suc(1))
    have "loop Student_style pm d hio s = loop Student_style pm d hio ?s'"
      using le True p by (subst loop.simps) (simp add: Let_def del: status_loop_pass)
    moreover have "loop Main_go pm d hio s = loop Main_go pm d hio ?s'"
      using le True by (subst loop.simps) (simp add: Let_def del: status_loop_pass)
    ultimately show ?thesis using ih by simp
  next
    case False
    have "loop Student_style pm d hio s = ?s'"
      using le False p by (subst loop.simps) (simp add: Let_def del: status_loop_pass)
    moreover have "loop Main_go pm d hio s = ?s'"
      using le False by (subst loop.simps) (simp add: Let_def del: status_loop_pass)
    ultimately show ?thesis by simp
  qed
qed

lemma main_agree:
  assumes "\<And>k A dg. read_res (hops e k) = ReadOk A dg \<Longrightarrow>
    decoded Student_style pm dg = decoded Main_go pm dg"
  shows "main Student_style pm e = main Main_go pm e"
  using loop_agree [of "hops e" pm, OF assms]
  by (simp add: main_def Let_def split: option.splits)


lemma loop_out_sent:
  assumes "ttl s \<le> maxHops" and "sends_ok (hio (ttl s))"
  shows "\<exists>rest. out (loop prog pm d hio s) =
    out s @ [PrintTTL (ttl s), OpenUDP (nsock s), SendUDP (nsock s) (ttl s) [] d 33434,
      SetReadDeadline 2] @ rest"
proof -
  let ?it = "iteration prog pm d (hio (ttl s)) s"
  let ?s' = "loop_pass prog pm d (hio (ttl s)) s"
  obtain r0 where it: "out ?it =
      out s @ [PrintTTL (ttl s), OpenUDP (nsock s), SendUDP (nsock s) (ttl s) [] d 33434,
        SetReadDeadline 2] @ r0"
    using iteration_sent [OF assms(2), of prog pm d s] by blast
  show ?thesis
  proof (cases "status ?it = Running")
    case True
    have l: "loop prog pm d hio s = loop prog pm d hio ?s'"
      using assms(1) True by (rule loop_step)
    obtain r where "out (loop prog pm d hio ?s') = out ?s' @ r"
      using loop_out_grows by blast
    then show ?thesis using it by (simp add: l)
  next
    case False
    have l: "loop prog pm d hio s = ?s'" using assms(1) False by (rule loop_stop)
    show ?thesis using it by (simp add: l)
  qed
qed

subsection \<open>Where the run ends\<close>

lemma hop_limits_iteration:
  "hop_limits (out (iteration prog pm d io s)) =
     hop_limits (out s) @ (if sends_ok io then [ttl s] else [])"
  by (simp add: hop_limits_def probes_iteration)

lemma loop_ends:
  assumes "ttl s \<le> maxHops" and "status s = Running"
  shows "\<exists>m. ttl s \<le> m \<and> m \<le> maxHops \<and>
     (\<forall>k. ttl s \<le> k \<and> k < m \<longrightarrow> sends_ok (hio k) \<and> \<not> reached prog pm (hio k)) \<and>
     reported_ttls (out (loop prog pm d hio s)) = reported_ttls (out s) @ [ttl s..<Suc m] \<and>
     (sends_ok (hio m) \<and> reached prog pm (hio m) \<and>
        status (loop prog pm d hio s) = Returned \<and>
        hop_limits (out (loop prog pm d hio s)) =
          hop_limits (out s) @ [ttl s..<Suc m] \<or>
      sends_ok (hio m) \<and> \<not> reached prog pm (hio m) \<and> m = maxHops \<and>
        status (loop prog pm d hio s) = Running \<and>
        hop_limits (out (loop prog pm d hio s)) =
          hop_limits (out s) @ [ttl s..<Suc m] \<or>
      \<not> sends_ok (hio m) \<and> status (loop prog pm d hio s) = Exited \<and>
        hop_limits (out (loop prog pm d hio s)) =
          hop_limits (out s) @ [ttl s..<m])"
  using assms
proof (induction prog pm d hio s rule: loop.induct)
  case (1 prog pm d hio s)
  let ?k = "ttl s"
  let ?it = "iteration prog pm d (hio ?k) s"
  let ?s' = "loop_pass prog pm d (hio ?k) s"
  let ?hl = "hop_limits"
  have le: "?k \<le> maxHops" and run: "status s = Running" using "1.prems" by simp_all
  have rep: "reported_ttls (out ?it) = reported_ttls (out s) @ [?k]"
    by (rule reported_iteration)
  show ?case
  proof (cases "sends_ok (hio ?k)")
    case False
    then have ex: "status ?it = Exited" by (rule status_iteration_fatal)
    then have "status ?it \<noteq> Running" by simp
    with le have l: "loop prog pm d hio s = ?s'" by (rule loop_stop)
    have "?hl (out ?it) = ?hl (out s) @ [?k..<?k]"
      using False by (simp add: hop_limits_iteration)
    then show ?thesis
      using le False ex rep by (intro exI [of _ ?k]) (auto simp add: l)
  next
    case ok: True
    have pr: "?hl (out ?it) = ?hl (out s) @ [?k]"
      using ok by (simp add: hop_limits_iteration)
    show ?thesis
    proof (cases "reached prog pm (hio ?k)")
      case True
      then have st: "status ?it = Returned"
        using ok by (simp add: status_iteration_sent)
      then have "status ?it \<noteq> Running" by simp
      with le have l: "loop prog pm d hio s = ?s'" by (rule loop_stop)
      show ?thesis
        using le ok True st rep pr by (intro exI [of _ ?k]) (auto simp add: l)
    next
      case nr: False
      then have st: "status ?it = Running"
        using ok run by (simp add: status_iteration_sent)
      with le have l: "loop prog pm d hio s = loop prog pm d hio ?s'" by (rule loop_step)
      have t': "ttl ?s' = Suc ?k" using st by (simp add: ttl_loop_pass)
      show ?thesis
      proof (cases "?k = maxHops")
        case True
        have "loop prog pm d hio ?s' = ?s'"
        proof (rule loop_over)
          show "maxHops < ttl ?s'" unfolding t' using True by simp
        qed
        then have l': "loop prog pm d hio s = ?s'" using l by simp
        show ?thesis
          using True ok nr st rep pr by (intro exI [of _ ?k]) (auto simp add: l')
      next
        case False
        then have le': "ttl ?s' \<le> maxHops" unfolding t' using le by simp
        have run': "status ?s' = Running" using st by simp
        have "\<exists>m. ttl ?s' \<le> m \<and> m \<le> maxHops \<and>
          (\<forall>k. ttl ?s' \<le> k \<and> k < m \<longrightarrow> sends_ok (hio k) \<and> \<not> reached prog pm (hio k)) \<and>
          reported_ttls (out (loop prog pm d hio ?s')) =
            reported_ttls (out ?s') @ [ttl ?s'..<Suc m] \<and>
          (sends_ok (hio m) \<and> reached prog pm (hio m) \<and>
             status (loop prog pm d hio ?s') = Returned \<and>
             ?hl (out (loop prog pm d hio ?s')) = ?hl (out ?s') @ [ttl ?s'..<Suc m] \<or>
           sends_ok (hio m) \<and> \<not> reached prog pm (hio m) \<and> m = maxHops \<and>
             status (loop prog pm d hio ?s') = Running \<and>
             ?hl (out (loop prog pm d hio ?s')) = ?hl (out ?s') @ [ttl ?s'..<Suc m] \<or>
           \<not> sends_ok (hio m) \<and> status (loop prog pm d hio ?s') = Exited \<and>
             ?hl (out (loop prog pm d hio ?s')) = ?hl (out ?s') @ [ttl ?s'..<m])"
          using le st le' run' by (intro "1.IH") simp_all
        then obtain m where m: "Suc ?k \<le> m" "m \<le> maxHops"
          "\<forall>k. Suc ?k \<le> k \<and> k < m \<longrightarrow> sends_ok (hio k) \<and> \<not> reached prog pm (hio k)"
          "reported_ttls (out (loop prog pm d hio ?s')) =
            reported_ttls (out ?it) @ [Suc ?k..<Suc m]"
          "sends_ok (hio m) \<and> reached prog pm (hio m) \<and>
             status (loop prog pm d hio ?s') = Returned \<and>
             ?hl (out (loop prog pm d hio ?s')) = ?hl (out ?it) @ [Suc ?k..<Suc m] \<or>
           sends_ok (hio m) \<and> \<not> reached prog pm (hio m) \<and> m = maxHops \<and>
             status (loop prog pm d hio ?s') = Running \<and>
             ?hl (out (loop prog pm d hio ?s')) = ?hl (out ?it) @ [Suc ?k..<Suc m] \<or>
           \<not> sends_ok (hio m) \<and> status (loop prog pm d hio ?s') = Exited \<and>
             ?hl (out (loop prog pm d hio ?s')) = ?hl (out ?it) @ [Suc ?k..<m]"
          unfolding t' out_loop_pass by blast
        have km: "?k < m" using m(1) by simp
        have e1: "[?k..<Suc m] = ?k # [Suc ?k..<Suc m]"
          by (rule upt_conv_Cons) (use km in simp)
        have e2: "[?k..<m] = ?k # [Suc ?k..<m]"
          by (rule upt_conv_Cons) (use km in simp)
        have q: "\<forall>k. ?k \<le> k \<and> k < m \<longrightarrow> sends_ok (hio k) \<and> \<not> reached prog pm (hio k)"
        proof (intro allI impI)
          fix k assume a: "?k \<le> k \<and> k < m"
          show "sends_ok (hio k) \<and> \<not> reached prog pm (hio k)"
          proof (cases "k = ?k")
            case True
            then show ?thesis using ok nr by simp
          next
            case False
            then have "Suc ?k \<le> k \<and> k < m" using a by simp
            then show ?thesis using m(3) by blast
          qed
        qed
        have r: "reported_ttls (out (loop prog pm d hio s)) =
            reported_ttls (out s) @ [?k..<Suc m]"
          unfolding l m(4) rep e1 by simp
        have p: "sends_ok (hio m) \<and> reached prog pm (hio m) \<and>
             status (loop prog pm d hio s) = Returned \<and>
             ?hl (out (loop prog pm d hio s)) = ?hl (out s) @ [?k..<Suc m] \<or>
           sends_ok (hio m) \<and> \<not> reached prog pm (hio m) \<and> m = maxHops \<and>
             status (loop prog pm d hio s) = Running \<and>
             ?hl (out (loop prog pm d hio s)) = ?hl (out s) @ [?k..<Suc m] \<or>
           \<not> sends_ok (hio m) \<and> status (loop prog pm d hio s) = Exited \<and>
             ?hl (out (loop prog pm d hio s)) = ?hl (out s) @ [?k..<m]"
          using m(5) unfolding l pr e1 e2 by simp
        show ?thesis
          using km m(2) q r p by (intro exI [of _ m]) simp
      qed
    qed
  qed
qed

subsection \<open>The end-to-end scenario\<close>

text \<open>
  Hop 1 times out, hop 2 answers time exceeded from 10.0.0.1, hop 3 answers destination
  unreachable from the target: three hop lines, the completion line, the deferred closes
  in reverse order of their registration, exit code 0.
\<close>

lemma end_to_end_scenario:
  "out (main Main_go header_decoder (sample_env scenario_hops)) =
     [PrintStart ''example.com'' ''93.184.216.34'', OpenICMP,
      PrintTTL 1, OpenUDP 0, SendUDP 0 1 [] ''93.184.216.34'' 33434, SetReadDeadline 2,
      PrintTimeout,
      PrintTTL 2, OpenUDP 1, SendUDP 1 2 [] ''93.184.216.34'' 33434, SetReadDeadline 2,
      PrintPeer ''10.0.0.1'', PrintTimeExceeded,
      PrintTTL 3, OpenUDP 2, SendUDP 2 3 [] ''93.184.216.34'' 33434, SetReadDeadline 2,
      PrintPeer ''93.184.216.34'', PrintDestUnreachable, PrintDone,
      CloseUDP 2, CloseUDP 1, CloseUDP 0, CloseICMP] \<and>
   exit_code (main Main_go header_decoder (sample_env scenario_hops)) = 0"
  by (simp add: run_defs scenario_hops_def)

section \<open>The claims\<close>

text \<open>
  C5. When the reply read in the round for TTL \<open>k\<close> decodes to an ICMP message of type time
  exceeded, sent by \<open>A\<close>, the round prints hop \<open>k\<close>, the responder \<open>A\<close> and the tag
  "(Time Exceeded)", leaves the program running and moves on to TTL \<open>k + 1\<close>: below the
  ceiling the next thing printed is hop number \<open>k + 1\<close>; at \<open>k = 30\<close> the loop ends because
  of its bound, not because of the reply.
\<close>

theorem C5_time_exceeded_reports_and_continues:
  assumes "ttl s \<le> maxHops" and "status s = Running" and "sends_ok (hio (ttl s))"
    and "read_res (hio (ttl s)) = ReadOk A dg" and "decoded prog pm dg = Some m"
    and "Type m = ICMPTypeTimeExceeded"
  shows "loop_pass prog pm d (hio (ttl s)) s =
      s\<lparr>ttl := Suc (ttl s), nsock := Suc (nsock s),
        deferred := CloseUDP (nsock s) # deferred s,
        out := out s @ [PrintTTL (ttl s), OpenUDP (nsock s),
          SendUDP (nsock s) (ttl s) [] d 33434, SetReadDeadline 2, PrintPeer A,
          PrintTimeExceeded]\<rparr> \<and>
    loop prog pm d hio s = loop prog pm d hio (loop_pass prog pm d (hio (ttl s)) s) \<and>
    (ttl s < maxHops \<longrightarrow>
       (\<exists>rest. out (loop prog pm d hio s) =
          out (loop_pass prog pm d (hio (ttl s)) s) @ PrintTTL (Suc (ttl s)) # rest)) \<and>
    (ttl s = maxHops \<longrightarrow> loop prog pm d hio s = loop_pass prog pm d (hio (ttl s)) s)"
proof -
  have p: "loop_pass prog pm d (hio (ttl s)) s =
      s\<lparr>ttl := Suc (ttl s), nsock := Suc (nsock s),
        deferred := CloseUDP (nsock s) # deferred s,
        out := out s @ [PrintTTL (ttl s), OpenUDP (nsock s),
          SendUDP (nsock s) (ttl s) [] d 33434, SetReadDeadline 2, PrintPeer A,
          PrintTimeExceeded]\<rparr>"
    using assms(2-6) by (rule pass_time_exceeded)
  have "status (loop_pass prog pm d (hio (ttl s)) s) = Running"
    unfolding p using assms(2) by simp
  with assms(1) show ?thesis using p loop_continues by blast
qed

theorem C5_witness:
  "loop_pass Main_go header_decoder ''93.184.216.34'' (send_fail_hops 1)
     (loop_entry ''example.com'' ''93.184.216.34'') =
   \<lparr>ttl = 2, nsock = 1, deferred = [CloseUDP 0, CloseICMP],
    out = [PrintStart ''example.com'' ''93.184.216.34'', OpenICMP, PrintTTL 1, OpenUDP 0,
      SendUDP 0 1 [] ''93.184.216.34'' 33434, SetReadDeadline 2, PrintPeer ''10.0.0.1'',
      PrintTimeExceeded],
    status = Running\<rparr>"
proof -
  let ?s = "loop_entry ''example.com'' ''93.184.216.34''"
  have h1: "ttl ?s \<le> maxHops" by (simp add: maxHops_def)
  have h2: "status ?s = Running" by simp
  have h3: "sends_ok (send_fail_hops (ttl ?s))"
    by (simp add: sends_ok_def send_fail_hops_def good_io_def)
  have h4: "read_res (send_fail_hops (ttl ?s)) = ReadOk ''10.0.0.1'' time_exceeded_dgram"
    by (simp add: send_fail_hops_def good_io_def)
  have h5: "decoded Main_go header_decoder time_exceeded_dgram = Some \<lparr>Type = 11, Code = 0\<rparr>"
    by (simp add: decoded_def ReadFrom_def parse_arg_def header_decoder_def
        time_exceeded_dgram_def)
  have h6: "Type \<lparr>Type = 11, Code = 0\<rparr> = ICMPTypeTimeExceeded"
    by (simp add: ICMPTypeTimeExceeded_def)
  from C5_time_exceeded_reports_and_continues [where hio = send_fail_hops and s = ?s
      and d = "''93.184.216.34''", OF h1 h2 h3 h4 h5 h6]
  show ?thesis
    by (simp add: loop_entry_def defer_call_def emit_def init_def)
qed

text \<open>
  C6. When the read of the round for TTL \<open>k\<close> ends with a timeout (the deadline is set two
  seconds ahead), the round prints hop \<open>k\<close> and the marker "* * * Request timed out.",
  leaves the program running and moves on to TTL \<open>k + 1\<close>. Timeouts at every hop from \<open>k\<close>
  on change nothing in the progression: the hops printed are \<open>k, k + 1, ..., 30\<close> and the
  loop ends by its bound with the status still \<open>Running\<close>, that is, without an abort.
\<close>

theorem C6_timeout_reports_and_continues:
  assumes "ttl s \<le> maxHops" and "status s = Running" and "sends_ok (hio (ttl s))"
    and "read_res (hio (ttl s)) = ReadTimeout"
  shows "loop_pass prog pm d (hio (ttl s)) s =
      s\<lparr>ttl := Suc (ttl s), nsock := Suc (nsock s),
        deferred := CloseUDP (nsock s) # deferred s,
        out := out s @ [PrintTTL (ttl s), OpenUDP (nsock s),
          SendUDP (nsock s) (ttl s) [] d 33434, SetReadDeadline 2, PrintTimeout]\<rparr> \<and>
    loop prog pm d hio s = loop prog pm d hio (loop_pass prog pm d (hio (ttl s)) s) \<and>
    (ttl s < maxHops \<longrightarrow>
       (\<exists>rest. out (loop prog pm d hio s) =
          out (loop_pass prog pm d (hio (ttl s)) s) @ PrintTTL (Suc (ttl s)) # rest)) \<and>
    (ttl s = maxHops \<longrightarrow> loop prog pm d hio s = loop_pass prog pm d (hio (ttl s)) s) \<and>
    ((\<forall>k. ttl s \<le> k \<and> k \<le> maxHops \<longrightarrow> sends_ok (hio k) \<and> read_res (hio k) = ReadTimeout) \<longrightarrow>
       status (loop prog pm d hio s) = Running \<and>
       reported_ttls (out (loop prog pm d hio s)) = reported_ttls (out s) @ [ttl s..<31])"
proof -
  have p: "loop_pass prog pm d (hio (ttl s)) s =
      s\<lparr>ttl := Suc (ttl s), nsock := Suc (nsock s),
        deferred := CloseUDP (nsock s) # deferred s,
        out := out s @ [PrintTTL (ttl s), OpenUDP (nsock s),
          SendUDP (nsock s) (ttl s) [] d 33434, SetReadDeadline 2, PrintTimeout]\<rparr>"
    using assms(2-4) by (rule pass_timeout)
  have "status (loop_pass prog pm d (hio (ttl s)) s) = Running"
    unfolding p using assms(2) by simp
  with assms(1) have c: "loop prog pm d hio s = loop prog pm d hio (loop_pass prog pm d (hio (ttl s)) s) \<and>
    (ttl s < maxHops \<longrightarrow>
       (\<exists>rest. out (loop prog pm d hio s) =
          out (loop_pass prog pm d (hio (ttl s)) s) @ PrintTTL (Suc (ttl s)) # rest)) \<and>
    (ttl s = maxHops \<longrightarrow> loop prog pm d hio s = loop_pass prog pm d (hio (ttl s)) s)"
    by (rule loop_continues)
  have r: "status (loop prog pm d hio s) = Running \<and>
       reported_ttls (out (loop prog pm d hio s)) = reported_ttls (out s) @ [ttl s..<31]"
    if a: "\<forall>k. ttl s \<le> k \<and> k \<le> maxHops \<longrightarrow> sends_ok (hio k) \<and> read_res (hio k) = ReadTimeout"
  proof -
    have "\<forall>k. ttl s \<le> k \<and> k \<le> maxHops \<longrightarrow> sends_ok (hio k) \<and> \<not> reached prog pm (hio k)"
      using a by (simp add: reached_def)
    then have st: "status (loop prog pm d hio s) = Running"
      using assms(2) by (simp add: loop_silent)
    have "ttl s \<le> Suc maxHops" using assms(1) by simp
    from loop_probes [OF this, of prog pm d hio] st
    have "reported_ttls (out (loop prog pm d hio s)) = reported_ttls (out s) @ [ttl s..<Suc maxHops]"
      by auto
    then show ?thesis using st by (simp add: maxHops_def)
  qed
  show ?thesis using p c r by blast
qed

theorem C6_witness:
  "loop_pass Main_go header_decoder ''93.184.216.34'' (silent_hops 1)
     (loop_entry ''example.com'' ''93.184.216.34'') =
   \<lparr>ttl = 2, nsock = 1, deferred = [CloseUDP 0, CloseICMP],
    out = [PrintStart ''example.com'' ''93.184.216.34'', OpenICMP, PrintTTL 1, OpenUDP 0,
      SendUDP 0 1 [] ''93.184.216.34'' 33434, SetReadDeadline 2, PrintTimeout],
    status = Running\<rparr> \<and>
   status (loop Main_go header_decoder ''93.184.216.34'' silent_hops
     (loop_entry ''example.com'' ''93.184.216.34'')) = Running \<and>
   reported_ttls (out (loop Main_go header_decoder ''93.184.216.34'' silent_hops
     (loop_entry ''example.com'' ''93.184.216.34''))) = [1..<31]"
proof -
  let ?s = "loop_entry ''example.com'' ''93.184.216.34''"
  have h1: "ttl ?s \<le> maxHops" by (simp add: maxHops_def)
  have h2: "status ?s = Running" by simp
  have h3: "sends_ok (silent_hops (ttl ?s))"
    by (simp add: sends_ok_def silent_hops_def good_io_def)
  have h4: "read_res (silent_hops (ttl ?s)) = ReadTimeout"
    by (simp add: silent_hops_def good_io_def)
  have h5: "\<forall>k. ttl ?s \<le> k \<and> k \<le> maxHops \<longrightarrow>
      sends_ok (silent_hops k) \<and> read_res (silent_hops k) = ReadTimeout"
    by (simp add: sends_ok_def silent_hops_def good_io_def)
  note th = C6_timeout_reports_and_continues [where hio = silent_hops and s = ?s
      and d = "''93.184.216.34''" and prog = Main_go and pm = header_decoder, OF h1 h2 h3 h4]
  have a: "loop_pass Main_go header_decoder ''93.184.216.34'' (silent_hops 1) ?s =
   \<lparr>ttl = 2, nsock = 1, deferred = [CloseUDP 0, CloseICMP],
    out = [PrintStart ''example.com'' ''93.184.216.34'', OpenICMP, PrintTTL 1, OpenUDP 0,
      SendUDP 0 1 [] ''93.184.216.34'' 33434, SetReadDeadline 2, PrintTimeout],
    status = Running\<rparr>"
    using th [THEN conjunct1] by (simp add: loop_entry_def defer_call_def emit_def init_def)
  have b: "status (loop Main_go header_decoder ''93.184.216.34'' silent_hops ?s) = Running \<and>
    reported_ttls (out (loop Main_go header_decoder ''93.184.216.34'' silent_hops ?s)) =
      reported_ttls (out ?s) @ [ttl ?s..<31]"
    using th [THEN conjunct2, THEN conjunct2, THEN conjunct2, THEN conjunct2] h5 by blast
  show ?thesis using a b by (simp add: ttl_printed_def)
qed

text \<open>
  C2, as the code has it. When the bytes read in the round for TTL \<open>k\<close> do not decode, the
  round logs the failure and prints neither a responder nor a classification for hop \<open>k\<close>;
  the run is not aborted by it. The read is not repeated: the round ends and \<open>ttl\<close> becomes
  \<open>k + 1\<close>. Below the ceiling the next round begins with the print of hop \<open>k + 1\<close>; it
  sends a new probe with hop limit \<open>k + 1\<close> on a new socket when its send steps succeed,
  and ends the run in a fatal exit, with no further probe, when one of them fails. At
  \<open>k = 30\<close> the loop ends by its bound.
\<close>

theorem C2_malformed_reply_moves_to_next_ttl:
  assumes "ttl s \<le> maxHops" and "status s = Running" and "sends_ok (hio (ttl s))"
    and "read_res (hio (ttl s)) = ReadOk A dg" and "decoded prog pm dg = None"
  shows "loop_pass prog pm d (hio (ttl s)) s =
      s\<lparr>ttl := Suc (ttl s), nsock := Suc (nsock s),
        deferred := CloseUDP (nsock s) # deferred s,
        out := out s @ [PrintTTL (ttl s), OpenUDP (nsock s),
          SendUDP (nsock s) (ttl s) [] d 33434, SetReadDeadline 2, LogParseError]\<rparr> \<and>
    loop prog pm d hio s = loop prog pm d hio (loop_pass prog pm d (hio (ttl s)) s) \<and>
    (ttl s < maxHops \<longrightarrow>
       (\<exists>rest. out (loop prog pm d hio s) =
          out (loop_pass prog pm d (hio (ttl s)) s) @ PrintTTL (Suc (ttl s)) # rest)) \<and>
    (ttl s < maxHops \<and> sends_ok (hio (Suc (ttl s))) \<longrightarrow>
       (\<exists>rest. out (loop prog pm d hio s) =
          out s @ [PrintTTL (ttl s), OpenUDP (nsock s),
            SendUDP (nsock s) (ttl s) [] d 33434, SetReadDeadline 2, LogParseError,
            PrintTTL (Suc (ttl s)), OpenUDP (Suc (nsock s)),
            SendUDP (Suc (nsock s)) (Suc (ttl s)) [] d 33434, SetReadDeadline 2] @ rest)) \<and>
    (ttl s < maxHops \<and> \<not> sends_ok (hio (Suc (ttl s))) \<longrightarrow>
       status (loop prog pm d hio s) = Exited \<and>
       probes (out (loop prog pm d hio s)) =
         probes (out s) @ [(nsock s, ttl s, [], d, 33434)]) \<and>
    (ttl s = maxHops \<longrightarrow> loop prog pm d hio s = loop_pass prog pm d (hio (ttl s)) s)"
proof -
  let ?s' = "loop_pass prog pm d (hio (ttl s)) s"
  have p: "?s' =
      s\<lparr>ttl := Suc (ttl s), nsock := Suc (nsock s),
        deferred := CloseUDP (nsock s) # deferred s,
        out := out s @ [PrintTTL (ttl s), OpenUDP (nsock s),
          SendUDP (nsock s) (ttl s) [] d 33434, SetReadDeadline 2, LogParseError]\<rparr>"
    using assms(2-5) by (rule pass_undecoded)
  have st: "status ?s' = Running"
    unfolding p using assms(2) by simp
  have c: "loop prog pm d hio s = loop prog pm d hio ?s' \<and>
    (ttl s < maxHops \<longrightarrow>
       (\<exists>rest. out (loop prog pm d hio s) = out ?s' @ PrintTTL (Suc (ttl s)) # rest)) \<and>
    (ttl s = maxHops \<longrightarrow> loop prog pm d hio s = ?s')"
    using assms(1) st by (rule loop_continues)
  have t': "ttl ?s' = Suc (ttl s)" and n': "nsock ?s' = Suc (nsock s)"
    and o': "out ?s' = out s @ [PrintTTL (ttl s), OpenUDP (nsock s),
          SendUDP (nsock s) (ttl s) [] d 33434, SetReadDeadline 2, LogParseError]"
    unfolding p by simp_all
  have e: "\<exists>rest. out (loop prog pm d hio s) =
          out s @ [PrintTTL (ttl s), OpenUDP (nsock s),
            SendUDP (nsock s) (ttl s) [] d 33434, SetReadDeadline 2, LogParseError,
            PrintTTL (Suc (ttl s)), OpenUDP (Suc (nsock s)),
            SendUDP (Suc (nsock s)) (Suc (ttl s)) [] d 33434, SetReadDeadline 2] @ rest"
    if "ttl s < maxHops" "sends_ok (hio (Suc (ttl s)))"
  proof -
    have "ttl ?s' \<le> maxHops" "sends_ok (hio (ttl ?s'))"
      using that unfolding t' by simp_all
    from loop_out_sent [where hio = hio and s = ?s' and prog = prog and pm = pm and d = d, OF this]
    obtain rest where "out (loop prog pm d hio ?s') =
      out ?s' @ [PrintTTL (ttl ?s'), OpenUDP (nsock ?s'),
        SendUDP (nsock ?s') (ttl ?s') [] d 33434, SetReadDeadline 2] @ rest"
      by blast
    then have "out (loop prog pm d hio s) =
          out s @ [PrintTTL (ttl s), OpenUDP (nsock s),
            SendUDP (nsock s) (ttl s) [] d 33434, SetReadDeadline 2, LogParseError,
            PrintTTL (Suc (ttl s)), OpenUDP (Suc (nsock s)),
            SendUDP (Suc (nsock s)) (Suc (ttl s)) [] d 33434, SetReadDeadline 2] @ rest"
      unfolding t' n' o' using c by simp
    then show ?thesis by blast
  qed
  have f: "status (loop prog pm d hio s) = Exited \<and>
       probes (out (loop prog pm d hio s)) =
         probes (out s) @ [(nsock s, ttl s, [], d, 33434)]"
    if "ttl s < maxHops" "\<not> sends_ok (hio (Suc (ttl s)))"
  proof -
    have le: "ttl ?s' \<le> maxHops" and no: "\<not> sends_ok (hio (ttl ?s'))"
      using that unfolding t' by simp_all
    have ex: "status (iteration prog pm d (hio (ttl ?s')) ?s') = Exited"
      using no by (rule status_iteration_fatal)
    then have "status (iteration prog pm d (hio (ttl ?s')) ?s') \<noteq> Running" by simp
    with le have l: "loop prog pm d hio ?s' = loop_pass prog pm d (hio (ttl ?s')) ?s'"
      by (rule loop_stop)
    have "probes (out (loop prog pm d hio ?s')) = probes (out ?s')"
      unfolding l using no by (simp add: probes_iteration)
    moreover have "probes (out ?s') = probes (out s) @ [(nsock s, ttl s, [], d, 33434)]"
      unfolding o' by (simp add: probe_of_def)
    moreover have "status (loop prog pm d hio ?s') = Exited"
      unfolding l using ex by simp
    ultimately show ?thesis using c by simp
  qed
  show ?thesis using p c e f by blast
qed

theorem C2_witness:
  "loop_pass Main_go header_decoder ''93.184.216.34'' (malformed_hops 1)
     (loop_entry ''example.com'' ''93.184.216.34'') =
   \<lparr>ttl = 2, nsock = 1, deferred = [CloseUDP 0, CloseICMP],
    out = [PrintStart ''example.com'' ''93.184.216.34'', OpenICMP, PrintTTL 1, OpenUDP 0,
      SendUDP 0 1 [] ''93.184.216.34'' 33434, SetReadDeadline 2, LogParseError],
    status = Running\<rparr> \<and>
   (\<exists>rest. out (loop Main_go header_decoder ''93.184.216.34'' malformed_hops
        (loop_entry ''example.com'' ''93.184.216.34'')) =
      [PrintStart ''example.com'' ''93.184.216.34'', OpenICMP, PrintTTL 1, OpenUDP 0,
       SendUDP 0 1 [] ''93.184.216.34'' 33434, SetReadDeadline 2, LogParseError,
       PrintTTL 2, OpenUDP 1, SendUDP 1 2 [] ''93.184.216.34'' 33434, SetReadDeadline 2] @
      rest)"
proof -
  let ?s = "loop_entry ''example.com'' ''93.184.216.34''"
  have h1: "ttl ?s \<le> maxHops" by (simp add: maxHops_def)
  have h2: "status ?s = Running" by simp
  have h3: "sends_ok (malformed_hops (ttl ?s))"
    by (simp add: sends_ok_def malformed_hops_def good_io_def)
  have h4: "read_res (malformed_hops (ttl ?s)) = ReadOk ''10.0.0.1'' [11, 0]"
    by (simp add: malformed_hops_def good_io_def)
  have h5: "decoded Main_go header_decoder [11, 0] = None"
    by (simp add: sample_defs)
  have h6: "ttl ?s < maxHops \<and> sends_ok (malformed_hops (Suc (ttl ?s)))"
    by (simp add: maxHops_def sends_ok_def malformed_hops_def good_io_def)
  note th = C2_malformed_reply_moves_to_next_ttl [where hio = malformed_hops and s = ?s
      and d = "''93.184.216.34''", OF h1 h2 h3 h4 h5]
  have a: "loop_pass Main_go header_decoder ''93.184.216.34'' (malformed_hops 1) ?s =
   \<lparr>ttl = 2, nsock = 1, deferred = [CloseUDP 0, CloseICMP],
    out = [PrintStart ''example.com'' ''93.184.216.34'', OpenICMP, PrintTTL 1, OpenUDP 0,
      SendUDP 0 1 [] ''93.184.216.34'' 33434, SetReadDeadline 2, LogParseError],
    status = Running\<rparr>"
    using th [THEN conjunct1] by (simp add: loop_entry_def defer_call_def emit_def init_def)
  have "\<exists>rest. out (loop Main_go header_decoder ''93.184.216.34'' malformed_hops ?s) =
          out ?s @ [PrintTTL (ttl ?s), OpenUDP (nsock ?s),
            SendUDP (nsock ?s) (ttl ?s) [] ''93.184.216.34'' 33434, SetReadDeadline 2,
            LogParseError,
            PrintTTL (Suc (ttl ?s)), OpenUDP (Suc (nsock ?s)),
            SendUDP (Suc (nsock ?s)) (Suc (ttl ?s)) [] ''93.184.216.34'' 33434,
            SetReadDeadline 2] @ rest"
    using th [THEN conjunct2, THEN conjunct2, THEN conjunct2, THEN conjunct1] h6 by blast
  then obtain rest where r:
    "out (loop Main_go header_decoder ''93.184.216.34'' malformed_hops ?s) =
          out ?s @ [PrintTTL (ttl ?s), OpenUDP (nsock ?s),
            SendUDP (nsock ?s) (ttl ?s) [] ''93.184.216.34'' 33434, SetReadDeadline 2,
            LogParseError,
            PrintTTL (Suc (ttl ?s)), OpenUDP (Suc (nsock ?s)),
            SendUDP (Suc (nsock ?s)) (Suc (ttl ?s)) [] ''93.184.216.34'' 33434,
            SetReadDeadline 2] @ rest"
    by blast
  have b: "\<exists>rest. out (loop Main_go header_decoder ''93.184.216.34'' malformed_hops ?s) =
      [PrintStart ''example.com'' ''93.184.216.34'', OpenICMP, PrintTTL 1, OpenUDP 0,
       SendUDP 0 1 [] ''93.184.216.34'' 33434, SetReadDeadline 2, LogParseError,
       PrintTTL 2, OpenUDP 1, SendUDP 1 2 [] ''93.184.216.34'' 33434, SetReadDeadline 2] @
      rest"
    by (rule exI [of _ rest]) (simp add: r)
  show ?thesis using a b by blast
qed

text \<open>
  C2 as stated says that after a decode failure the TTL is unchanged and no new TTL is
  consumed. On a two-byte reply at hop 1 the TTL goes from 1 to 2, and the run sends a
  second probe with TTL 2 without having read again for TTL 1.
\<close>

theorem C2_counterexample:
  "sends_ok (malformed_hops 1) \<and>
   read_res (malformed_hops 1) = ReadOk ''10.0.0.1'' [11, 0] \<and>
   decoded Main_go header_decoder [11, 0] = None \<and>
   ttl (loop_entry ''example.com'' ''93.184.216.34'') = 1 \<and>
   ttl (loop_pass Main_go header_decoder ''93.184.216.34'' (malformed_hops 1)
     (loop_entry ''example.com'' ''93.184.216.34'')) = 2 \<and>
   out (main Main_go header_decoder (sample_env malformed_hops)) =
     [PrintStart ''example.com'' ''93.184.216.34'', OpenICMP,
      PrintTTL 1, OpenUDP 0, SendUDP 0 1 [] ''93.184.216.34'' 33434, SetReadDeadline 2,
      LogParseError,
      PrintTTL 2, OpenUDP 1, SendUDP 1 2 [] ''93.184.216.34'' 33434, SetReadDeadline 2,
      PrintPeer ''93.184.216.34'', PrintDestUnreachable, PrintDone,
      CloseUDP 1, CloseUDP 0, CloseICMP]"
  by (simp add: main_def sample_env_def malformed_hops_def sample_defs loop.simps loop_pass_def
      body_defs finish_def return_from_main_def init_def maxHops_def timeout_def destPort_def
      loop_entry_def ICMPTypeTimeExceeded_def ICMPTypeDestinationUnreachable_def)

text \<open>
  C1, as the code has it. When the reply read in the round for TTL \<open>k\<close> decodes to an ICMP
  message of type 3, destination unreachable, whatever its code (the switch reads the type
  only, so port unreachable is one case among others), the round prints hop \<open>k\<close>, the
  responder and the tag, then the completion line, and \<open>main\<close> returns: the rest of the
  run is only the deferred closes, the exit code is 0, and no probe follows. A decoded
  reply of any other type leaves the program running with \<open>ttl = k + 1\<close>; and a round
  ends in a \<open>return\<close> exactly when its sends succeeded and its reply is of type 3.
\<close>

theorem C1_destination_unreachable_ends_run:
  assumes "ttl s \<le> maxHops" and "status s = Running" and "sends_ok (hio (ttl s))"
    and "read_res (hio (ttl s)) = ReadOk A dg" and "decoded prog pm dg = Some m"
  shows "(Type m = ICMPTypeDestinationUnreachable \<longrightarrow>
      out (finish (loop prog pm d hio s)) =
        out s @ [PrintTTL (ttl s), OpenUDP (nsock s), SendUDP (nsock s) (ttl s) [] d 33434,
          SetReadDeadline 2, PrintPeer A, PrintDestUnreachable, PrintDone] @
        CloseUDP (nsock s) # deferred s \<and>
      status (finish (loop prog pm d hio s)) = Returned \<and>
      exit_code (finish (loop prog pm d hio s)) = 0) \<and>
    (Type m \<noteq> ICMPTypeDestinationUnreachable \<longrightarrow>
      status (loop_pass prog pm d (hio (ttl s)) s) = Running \<and>
      ttl (loop_pass prog pm d (hio (ttl s)) s) = Suc (ttl s) \<and>
      PrintDone \<notin> set (drop (length (out s)) (out (loop_pass prog pm d (hio (ttl s)) s))) \<and>
      loop prog pm d hio s = loop prog pm d hio (loop_pass prog pm d (hio (ttl s)) s)) \<and>
    (\<forall>io. status (iteration prog pm d io s) = Returned \<longleftrightarrow> sends_ok io \<and> reached prog pm io)"
proof -
  let ?io = "hio (ttl s)"
  let ?s' = "loop_pass prog pm d ?io s"
  have a: "out (finish (loop prog pm d hio s)) =
        out s @ [PrintTTL (ttl s), OpenUDP (nsock s), SendUDP (nsock s) (ttl s) [] d 33434,
          SetReadDeadline 2, PrintPeer A, PrintDestUnreachable, PrintDone] @
        CloseUDP (nsock s) # deferred s \<and>
      status (finish (loop prog pm d hio s)) = Returned \<and>
      exit_code (finish (loop prog pm d hio s)) = 0"
    if t: "Type m = ICMPTypeDestinationUnreachable"
  proof -
    have p: "?s' = s\<lparr>nsock := Suc (nsock s),
       deferred := CloseUDP (nsock s) # deferred s,
       out := out s @ [PrintTTL (ttl s), OpenUDP (nsock s),
         SendUDP (nsock s) (ttl s) [] d 33434, SetReadDeadline 2, PrintPeer A,
         PrintDestUnreachable, PrintDone],
       status := Returned\<rparr>"
      using assms(3-5) t by (rule pass_unreachable)
    have "status ?s' \<noteq> Running" unfolding p by simp
    then have "status (iteration prog pm d ?io s) \<noteq> Running" by simp
    with assms(1) have "loop prog pm d hio s = ?s'" by (rule loop_stop)
    then show ?thesis
      unfolding p by (simp add: finish_def return_from_main_def exit_code_def)
  qed
  have b: "status ?s' = Running \<and> ttl ?s' = Suc (ttl s) \<and>
      PrintDone \<notin> set (drop (length (out s)) (out ?s')) \<and>
      loop prog pm d hio s = loop prog pm d hio ?s'"
    if t: "Type m \<noteq> ICMPTypeDestinationUnreachable"
  proof (cases "Type m = ICMPTypeTimeExceeded")
    case True
    have p: "?s' = s\<lparr>ttl := Suc (ttl s), nsock := Suc (nsock s),
       deferred := CloseUDP (nsock s) # deferred s,
       out := out s @ [PrintTTL (ttl s), OpenUDP (nsock s),
         SendUDP (nsock s) (ttl s) [] d 33434, SetReadDeadline 2, PrintPeer A,
         PrintTimeExceeded]\<rparr>"
      using assms(2-5) True by (rule pass_time_exceeded)
    have st: "status ?s' = Running" unfolding p using assms(2) by simp
    have "loop prog pm d hio s = loop prog pm d hio ?s'"
      using loop_continues [where hio = hio, OF assms(1) st] by blast
    moreover have "ttl ?s' = Suc (ttl s) \<and> PrintDone \<notin> set (drop (length (out s)) (out ?s'))"
      unfolding p by simp
    ultimately show ?thesis using st by blast
  next
    case False
    have p: "?s' = s\<lparr>ttl := Suc (ttl s), nsock := Suc (nsock s),
       deferred := CloseUDP (nsock s) # deferred s,
       out := out s @ [PrintTTL (ttl s), OpenUDP (nsock s),
         SendUDP (nsock s) (ttl s) [] d 33434, SetReadDeadline 2, PrintPeer A,
         PrintUnknown (Type m)]\<rparr>"
      using assms(2-5) False t by (rule pass_other)
    have st: "status ?s' = Running" unfolding p using assms(2) by simp
    have "loop prog pm d hio s = loop prog pm d hio ?s'"
      using loop_continues [where hio = hio, OF assms(1) st] by blast
    moreover have "ttl ?s' = Suc (ttl s) \<and> PrintDone \<notin> set (drop (length (out s)) (out ?s'))"
      unfolding p by simp
    ultimately show ?thesis using st by blast
  qed
  have c: "\<forall>io. status (iteration prog pm d io s) = Returned \<longleftrightarrow> sends_ok io \<and> reached prog pm io"
    using assms(2) by (simp add: status_iteration_Returned)
  show ?thesis using a b c by blast
qed

theorem C1_witness:
  "out (finish (loop Main_go header_decoder ''93.184.216.34'' direct_hops
      (loop_entry ''example.com'' ''93.184.216.34''))) =
     [PrintStart ''example.com'' ''93.184.216.34'', OpenICMP, PrintTTL 1, OpenUDP 0,
      SendUDP 0 1 [] ''93.184.216.34'' 33434, SetReadDeadline 2,
      PrintPeer ''93.184.216.34'', PrintDestUnreachable, PrintDone, CloseUDP 0, CloseICMP] \<and>
   exit_code (finish (loop Main_go header_decoder ''93.184.216.34'' direct_hops
      (loop_entry ''example.com'' ''93.184.216.34''))) = 0 \<and>
   status (loop_pass Main_go header_decoder ''93.184.216.34'' (unknown_hops 1)
      (loop_entry ''example.com'' ''93.184.216.34'')) = Running \<and>
   ttl (loop_pass Main_go header_decoder ''93.184.216.34'' (unknown_hops 1)
      (loop_entry ''example.com'' ''93.184.216.34'')) = 2"
proof -
  let ?s = "loop_entry ''example.com'' ''93.184.216.34''"
  have h1: "ttl ?s \<le> maxHops" by (simp add: maxHops_def)
  have h2: "status ?s = Running" by simp
  have h3: "sends_ok (direct_hops (ttl ?s))"
    by (simp add: sends_ok_def direct_hops_def good_io_def)
  have h4: "read_res (direct_hops (ttl ?s)) = ReadOk ''93.184.216.34'' port_unreachable_dgram"
    by (simp add: direct_hops_def good_io_def)
  have h5: "decoded Main_go header_decoder port_unreachable_dgram = Some \<lparr>Type = 3, Code = 3\<rparr>"
    by (simp add: sample_defs)
  have h6: "Type \<lparr>Type = 3, Code = 3\<rparr> = ICMPTypeDestinationUnreachable"
    by (simp add: ICMPTypeDestinationUnreachable_def)
  have g3: "sends_ok (unknown_hops (ttl ?s))"
    by (simp add: sends_ok_def unknown_hops_def good_io_def)
  have g4: "read_res (unknown_hops (ttl ?s)) = ReadOk ''10.0.0.9'' echo_reply_dgram"
    by (simp add: unknown_hops_def good_io_def)
  have g5: "decoded Main_go header_decoder echo_reply_dgram = Some \<lparr>Type = 0, Code = 0\<rparr>"
    by (simp add: sample_defs)
  have g6: "Type \<lparr>Type = 0, Code = 0\<rparr> \<noteq> ICMPTypeDestinationUnreachable"
    by (simp add: ICMPTypeDestinationUnreachable_def)
  have a: "out (finish (loop Main_go header_decoder ''93.184.216.34'' direct_hops ?s)) =
        out ?s @ [PrintTTL (ttl ?s), OpenUDP (nsock ?s),
          SendUDP (nsock ?s) (ttl ?s) [] ''93.184.216.34'' 33434,
          SetReadDeadline 2, PrintPeer ''93.184.216.34'', PrintDestUnreachable, PrintDone] @
        CloseUDP (nsock ?s) # deferred ?s \<and>
      status (finish (loop Main_go header_decoder ''93.184.216.34'' direct_hops ?s)) = Returned \<and>
      exit_code (finish (loop Main_go header_decoder ''93.184.216.34'' direct_hops ?s)) = 0"
    using C1_destination_unreachable_ends_run [where hio = direct_hops and s = ?s
      and d = "''93.184.216.34''", OF h1 h2 h3 h4 h5, THEN conjunct1] h6 by blast
  have b: "status (loop_pass Main_go header_decoder ''93.184.216.34'' (unknown_hops (ttl ?s)) ?s) =
        Running \<and>
      ttl (loop_pass Main_go header_decoder ''93.184.216.34'' (unknown_hops (ttl ?s)) ?s) =
        Suc (ttl ?s)"
    using C1_destination_unreachable_ends_run [where hio = unknown_hops and s = ?s
      and d = "''93.184.216.34''", OF h1 h2 g3 g4 g5, THEN conjunct2, THEN conjunct1] g6
    by blast
  show ?thesis using a b by simp
qed

text \<open>
  C1 as stated says that the run ends with success only on a port unreachable reply. A
  host unreachable reply, type 3 with code 1, sent by the router at hop 2, is not port
  unreachable, and the run prints the completion line at hop 2 and returns with exit code
  0 before any probe reaches the target.
\<close>

theorem C1_counterexample:
  "read_res (host_unreachable_hops 2) = ReadOk ''10.0.0.2'' host_unreachable_dgram \<and>
   decoded Main_go header_decoder host_unreachable_dgram = Some \<lparr>Type = 3, Code = 1\<rparr> \<and>
   \<not> is_port_unreachable \<lparr>Type = 3, Code = 1\<rparr> \<and>
   out (main Main_go header_decoder (sample_env host_unreachable_hops)) =
     [PrintStart ''example.com'' ''93.184.216.34'', OpenICMP,
      PrintTTL 1, OpenUDP 0, SendUDP 0 1 [] ''93.184.216.34'' 33434, SetReadDeadline 2,
      PrintPeer ''10.0.0.1'', PrintTimeExceeded,
      PrintTTL 2, OpenUDP 1, SendUDP 1 2 [] ''93.184.216.34'' 33434, SetReadDeadline 2,
      PrintPeer ''10.0.0.2'', PrintDestUnreachable, PrintDone,
      CloseUDP 1, CloseUDP 0, CloseICMP] \<and>
   status (main Main_go header_decoder (sample_env host_unreachable_hops)) = Returned \<and>
   exit_code (main Main_go header_decoder (sample_env host_unreachable_hops)) = 0"
  by (simp add: run_defs host_unreachable_hops_def is_port_unreachable_def)

text \<open>
  C8. When, in the round for TTL \<open>k\<close>, opening the UDP socket fails, or setting its TTL
  fails, or the write fails, the round ends in \<open>log.Fatalf\<close>: the process exits with code
  1 at that point. Nothing follows the fatal message, so the failed step is not tried
  again and no further probe is sent.
\<close>

theorem C8_send_failure_is_fatal:
  assumes "ttl s \<le> maxHops" and "\<not> sends_ok (hio (ttl s))"
  shows "out (finish (loop prog pm d hio s)) =
      out s @
        (if \<not> listen_ok (hio (ttl s)) then [PrintTTL (ttl s), LogFatal SendSocketError]
         else if \<not> setttl_ok (hio (ttl s)) then
           [PrintTTL (ttl s), OpenUDP (nsock s), LogFatal SetTTLError]
         else [PrintTTL (ttl s), OpenUDP (nsock s), LogFatal SendError]) \<and>
    status (finish (loop prog pm d hio s)) = Exited \<and>
    exit_code (finish (loop prog pm d hio s)) = 1 \<and>
    probes (out (finish (loop prog pm d hio s))) = probes (out s)"
proof -
  let ?s' = "loop_pass prog pm d (hio (ttl s)) s"
  have st: "status (iteration prog pm d (hio (ttl s)) s) = Exited"
    using assms(2) by (rule status_iteration_fatal)
  then have "status (iteration prog pm d (hio (ttl s)) s) \<noteq> Running" by simp
  with assms(1) have l: "loop prog pm d hio s = ?s'" by (rule loop_stop)
  have f: "finish ?s' = ?s'" using st by (simp add: finish_Exited)
  show ?thesis
    unfolding l f using assms(2) st
    by (simp add: pass_fatal exit_code_def probe_of_def del: out_loop_pass status_loop_pass)
qed

theorem C8_witness:
  "out (finish (loop Main_go header_decoder ''93.184.216.34'' no_socket_hops
      (loop_entry ''example.com'' ''93.184.216.34''))) =
     [PrintStart ''example.com'' ''93.184.216.34'', OpenICMP, PrintTTL 1,
      LogFatal SendSocketError] \<and>
   exit_code (finish (loop Main_go header_decoder ''93.184.216.34'' no_socket_hops
      (loop_entry ''example.com'' ''93.184.216.34''))) = 1"
proof -
  let ?s = "loop_entry ''example.com'' ''93.184.216.34''"
  have h1: "ttl ?s \<le> maxHops" by (simp add: maxHops_def)
  have h2: "\<not> sends_ok (no_socket_hops (ttl ?s))"
    by (simp add: sends_ok_def no_socket_hops_def good_io_def)
  have h3: "\<not> listen_ok (no_socket_hops (ttl ?s))"
    by (simp add: no_socket_hops_def good_io_def)
  show ?thesis
    using C8_send_failure_is_fatal [where hio = no_socket_hops and s = ?s, OF h1 h2] h3
    by simp
qed

text \<open>
  C4. A run that does not get past its start prints no hop and sends no probe. Every other
  run prints the hop numbers \<open>1, 2, ..., m\<close>, in this order and each once, where \<open>m\<close> is
  the round at which the run ends: all rounds before \<open>m\<close> sent their probe and received
  no destination unreachable reply, and round \<open>m\<close> either received one (\<open>main\<close> returns),
  or is round 30 with no such reply (the ceiling; \<open>main\<close> returns), or failed in a send
  step (fatal exit). The hop limits of the probes sent are \<open>1, 2, ..., m\<close> in this order,
  each once; in the fatal case they are \<open>1, ..., m - 1\<close>, round \<open>m\<close> having sent nothing.
\<close>

theorem C4_ttls_are_1_2_3:
  "(\<not> (2 \<le> length (args e) \<and> resolve e (args e ! 1) \<noteq> None \<and> icmp_listen_ok e) \<longrightarrow>
      reported_ttls (out (main prog pm e)) = [] \<and> hop_limits (out (main prog pm e)) = [] \<and>
      status (main prog pm e) = Exited) \<and>
   (2 \<le> length (args e) \<and> resolve e (args e ! 1) \<noteq> None \<and> icmp_listen_ok e \<longrightarrow>
      (\<exists>m. 1 \<le> m \<and> m \<le> 30 \<and>
         (\<forall>k. 1 \<le> k \<and> k < m \<longrightarrow> sends_ok (hops e k) \<and> \<not> reached prog pm (hops e k)) \<and>
         reported_ttls (out (main prog pm e)) = [1..<Suc m] \<and>
         (sends_ok (hops e m) \<and> reached prog pm (hops e m) \<and>
            status (main prog pm e) = Returned \<and>
            hop_limits (out (main prog pm e)) = [1..<Suc m] \<or>
          sends_ok (hops e m) \<and> \<not> reached prog pm (hops e m) \<and> m = 30 \<and>
            status (main prog pm e) = Returned \<and>
            hop_limits (out (main prog pm e)) = [1..<Suc m] \<or>
          \<not> sends_ok (hops e m) \<and> status (main prog pm e) = Exited \<and>
            hop_limits (out (main prog pm e)) = [1..<m])))"
proof -
  have a: "reported_ttls (out (main prog pm e)) = [] \<and> hop_limits (out (main prog pm e)) = [] \<and>
      status (main prog pm e) = Exited"
    if "\<not> (2 \<le> length (args e) \<and> resolve e (args e ! 1) \<noteq> None \<and> icmp_listen_ok e)"
    using main_not_started [OF that, of prog pm] by (simp add: hop_limits_def)
  have b: "\<exists>m. 1 \<le> m \<and> m \<le> 30 \<and>
         (\<forall>k. 1 \<le> k \<and> k < m \<longrightarrow> sends_ok (hops e k) \<and> \<not> reached prog pm (hops e k)) \<and>
         reported_ttls (out (main prog pm e)) = [1..<Suc m] \<and>
         (sends_ok (hops e m) \<and> reached prog pm (hops e m) \<and>
            status (main prog pm e) = Returned \<and>
            hop_limits (out (main prog pm e)) = [1..<Suc m] \<or>
          sends_ok (hops e m) \<and> \<not> reached prog pm (hops e m) \<and> m = 30 \<and>
            status (main prog pm e) = Returned \<and>
            hop_limits (out (main prog pm e)) = [1..<Suc m] \<or>
          \<not> sends_ok (hops e m) \<and> status (main prog pm e) = Exited \<and>
            hop_limits (out (main prog pm e)) = [1..<m])"
    if st: "2 \<le> length (args e) \<and> resolve e (args e ! 1) \<noteq> None \<and> icmp_listen_ok e"
  proof -
    obtain dst where dst: "resolve e (args e ! 1) = Some dst" using st by auto
    let ?s = "loop_entry (args e ! 1) dst"
    let ?l = "loop prog pm dst (hops e) ?s"
    have mf: "main prog pm e = finish ?l"
      using st dst by (simp add: main_started)
    have fin: "reported_ttls (out (main prog pm e)) = reported_ttls (out ?l)"
      "hop_limits (out (main prog pm e)) = hop_limits (out ?l)"
      using main_out_finish [of prog pm dst "hops e" "args e ! 1"]
      by (simp_all add: mf hop_limits_def)
    have sf: "status (main prog pm e) = (if status ?l = Exited then Exited else Returned)"
      by (simp add: mf status_finish)
    have e0: "reported_ttls (out ?s) = []" "hop_limits (out ?s) = []"
      by (simp_all add: hop_limits_def ttl_printed_def probe_of_def)
    have "ttl ?s \<le> maxHops" "status ?s = Running" by (simp_all add: maxHops_def)
    from loop_ends [OF this, of "hops e" prog pm dst]
    obtain m where m: "1 \<le> m" "m \<le> maxHops"
      "\<forall>k. 1 \<le> k \<and> k < m \<longrightarrow> sends_ok (hops e k) \<and> \<not> reached prog pm (hops e k)"
      "reported_ttls (out ?l) = [1..<Suc m]"
      "sends_ok (hops e m) \<and> reached prog pm (hops e m) \<and> status ?l = Returned \<and>
         hop_limits (out ?l) = [1..<Suc m] \<or>
       sends_ok (hops e m) \<and> \<not> reached prog pm (hops e m) \<and> m = maxHops \<and>
         status ?l = Running \<and> hop_limits (out ?l) = [1..<Suc m] \<or>
       \<not> sends_ok (hops e m) \<and> status ?l = Exited \<and> hop_limits (out ?l) = [1..<m]"
      unfolding e0 by (auto simp del: upt_Suc)
    have "sends_ok (hops e m) \<and> reached prog pm (hops e m) \<and>
            status (main prog pm e) = Returned \<and>
            hop_limits (out (main prog pm e)) = [1..<Suc m] \<or>
          sends_ok (hops e m) \<and> \<not> reached prog pm (hops e m) \<and> m = 30 \<and>
            status (main prog pm e) = Returned \<and>
            hop_limits (out (main prog pm e)) = [1..<Suc m] \<or>
          \<not> sends_ok (hops e m) \<and> status (main prog pm e) = Exited \<and>
            hop_limits (out (main prog pm e)) = [1..<m]"
      using m(5) unfolding fin sf maxHops_def by auto
    then show ?thesis
      using m(1-4) unfolding fin maxHops_def by blast
  qed
  show ?thesis using a b by blast
qed

theorem C4_witness:
  "reported_ttls (out (main Main_go header_decoder (sample_env scenario_hops))) = [1, 2, 3] \<and>
   hop_limits (out (main Main_go header_decoder (sample_env scenario_hops))) = [1, 2, 3] \<and>
   status (main Main_go header_decoder (sample_env scenario_hops)) = Returned"
proof -
  let ?e = "sample_env scenario_hops"
  let ?M = "main Main_go header_decoder ?e"
  have st: "2 \<le> length (args ?e) \<and> resolve ?e (args ?e ! 1) \<noteq> None \<and> icmp_listen_ok ?e"
    by (simp add: sample_env_def)
  have ok: "sends_ok (hops ?e k)" for k
    by (simp add: sample_env_def scenario_hops_def good_io_def sends_ok_def)
  have re: "reached Main_go header_decoder (hops ?e k) \<longleftrightarrow> k \<noteq> 1 \<and> k \<noteq> 2" for k
    by (simp add: sample_env_def scenario_hops_def reached_def sample_defs
        ICMPTypeDestinationUnreachable_def)
  from C4_ttls_are_1_2_3 [of ?e Main_go header_decoder, THEN conjunct2] st
  obtain m where m: "1 \<le> m" "m \<le> 30"
    "\<forall>k. 1 \<le> k \<and> k < m \<longrightarrow> sends_ok (hops ?e k) \<and> \<not> reached Main_go header_decoder (hops ?e k)"
    "reported_ttls (out ?M) = [1..<Suc m]"
    "sends_ok (hops ?e m) \<and> reached Main_go header_decoder (hops ?e m) \<and>
       status ?M = Returned \<and> hop_limits (out ?M) = [1..<Suc m] \<or>
     sends_ok (hops ?e m) \<and> \<not> reached Main_go header_decoder (hops ?e m) \<and> m = 30 \<and>
       status ?M = Returned \<and> hop_limits (out ?M) = [1..<Suc m] \<or>
     \<not> sends_ok (hops ?e m) \<and> status ?M = Exited \<and> hop_limits (out ?M) = [1..<m]"
    by blast
  have le3: "m \<le> 3"
  proof (rule ccontr)
    assume "\<not> m \<le> 3"
    then have "1 \<le> (3::nat) \<and> 3 < m" by simp
    then have "\<not> reached Main_go header_decoder (hops ?e 3)" using m(3) by blast
    then show False by (simp add: re)
  qed
  have r: "reached Main_go header_decoder (hops ?e m)"
    using m(5) le3 ok by auto
  then have "m = 3" using le3 m(1) by (simp add: re)
  moreover have "status ?M = Returned \<and> hop_limits (out ?M) = [1..<Suc m]"
    using m(5) r ok by auto
  ultimately show ?thesis using m(4) by (simp add: upt_rec)
qed

text \<open>
  C3. Whatever the network and the system calls do, a run sends at most 30 probes, all
  with hop limits between 1 and 30; the loop is a total function, so the run always ends.
  The completion line is printed only if some round \<open>k \<le> 30\<close> received a reply of type
  destination unreachable. A run that starts and in which every read times out sends
  exactly the 30 probes with hop limits \<open>1, ..., 30\<close>, prints no completion line, and
  \<open>main\<close> returns with exit code 0.
\<close>

theorem C3_at_most_30_probes:
  "length (probes (out (main prog pm e))) \<le> 30 \<and>
   set (map (fst \<circ> snd) (probes (out (main prog pm e)))) \<subseteq> {1..30} \<and>
   (PrintDone \<in> set (out (main prog pm e)) \<longrightarrow>
      (\<exists>k. 1 \<le> k \<and> k \<le> 30 \<and> sends_ok (hops e k) \<and> reached prog pm (hops e k))) \<and>
   (2 \<le> length (args e) \<and> resolve e (args e ! 1) \<noteq> None \<and> icmp_listen_ok e \<and>
    (\<forall>k. 1 \<le> k \<and> k \<le> 30 \<longrightarrow> sends_ok (hops e k) \<and> read_res (hops e k) = ReadTimeout) \<longrightarrow>
      map (fst \<circ> snd) (probes (out (main prog pm e))) = [1..<31] \<and>
      PrintDone \<notin> set (out (main prog pm e)) \<and>
      status (main prog pm e) = Returned \<and>
      exit_code (main prog pm e) = 0)"
proof -
  obtain m n dest where mn: "n \<le> m" "m \<le> Suc n" "m \<le> maxHops"
    "probes (out (main prog pm e)) = map (\<lambda>k. (k - 1, k, [], dest, 33434)) [1..<Suc n]"
    using main_summary [of prog pm e] by blast
  have n30: "n \<le> 30" using mn(1,3) by (simp add: maxHops_def)
  have hl: "map (fst \<circ> snd) (probes (out (main prog pm e))) = [1..<Suc n]"
    unfolding mn(4) by (simp add: comp_def del: upt_Suc)
  have a: "length (probes (out (main prog pm e))) \<le> 30"
    unfolding mn(4) using n30 by simp
  have b: "set (map (fst \<circ> snd) (probes (out (main prog pm e)))) \<subseteq> {1..30}"
    unfolding hl using n30 by auto
  have c: "\<exists>k. 1 \<le> k \<and> k \<le> 30 \<and> sends_ok (hops e k) \<and> reached prog pm (hops e k)"
    if d: "PrintDone \<in> set (out (main prog pm e))"
  proof (cases "2 \<le> length (args e) \<and> resolve e (args e ! 1) \<noteq> None \<and> icmp_listen_ok e")
    case False
    then show ?thesis using main_not_started [of e prog pm] d by simp
  next
    case True
    then obtain dst where dst: "resolve e (args e ! 1) = Some dst" by auto
    let ?s = "loop_entry (args e ! 1) dst"
    have "main prog pm e = finish (loop prog pm dst (hops e) ?s)"
      using True dst by (simp add: main_started)
    then have "PrintDone \<in> set (out (loop prog pm dst (hops e) ?s))"
      using d main_out_finish [of prog pm dst "hops e" "args e ! 1"] by simp
    from loop_done [OF this] show ?thesis by (simp add: maxHops_def)
  qed
  have s: "map (fst \<circ> snd) (probes (out (main prog pm e))) = [1..<31] \<and>
      PrintDone \<notin> set (out (main prog pm e)) \<and>
      status (main prog pm e) = Returned \<and>
      exit_code (main prog pm e) = 0"
    if st: "2 \<le> length (args e) \<and> resolve e (args e ! 1) \<noteq> None \<and> icmp_listen_ok e"
      and q: "\<forall>k. 1 \<le> k \<and> k \<le> 30 \<longrightarrow> sends_ok (hops e k) \<and> read_res (hops e k) = ReadTimeout"
  proof -
    obtain dst where dst: "resolve e (args e ! 1) = Some dst" using st by auto
    let ?s = "loop_entry (args e ! 1) dst"
    let ?l = "loop prog pm dst (hops e) ?s"
    have mf: "main prog pm e = finish ?l"
      using st dst by (simp add: main_started)
    have nr: "\<forall>k. ttl ?s \<le> k \<and> k \<le> maxHops \<longrightarrow>
        sends_ok (hops e k) \<and> \<not> reached prog pm (hops e k)"
      using q by (simp add: reached_def maxHops_def)
    then have run: "status ?l = Running" by (simp add: loop_silent)
    have "ttl ?s \<le> Suc maxHops" by (simp add: maxHops_def)
    from loop_probes [OF this, of prog pm dst "hops e"] run
    have "probes (out ?l) = map (\<lambda>k. (k - 1, k, [], dst, 33434)) [1..<Suc maxHops]"
      by (auto simp add: probe_of_def)
    then have "probes (out (main prog pm e)) =
        map (\<lambda>k. (k - 1, k, [], dst, 33434)) [1..<Suc maxHops]"
      using main_out_finish [of prog pm dst "hops e" "args e ! 1"] by (simp add: mf)
    then have p: "map (fst \<circ> snd) (probes (out (main prog pm e))) = [1..<31]"
      by (simp add: comp_def maxHops_def del: upt_Suc)
    have d: "PrintDone \<notin> set (out (main prog pm e))"
    proof
      assume "PrintDone \<in> set (out (main prog pm e))"
      then obtain k where "1 \<le> k" "k \<le> 30" "reached prog pm (hops e k)"
        using c by blast
      then show False using q by (simp add: reached_def)
    qed
    have "status (main prog pm e) = Returned \<and> exit_code (main prog pm e) = 0"
      using run by (simp add: mf status_finish exit_code_def)
    then show ?thesis using p d by blast
  qed
  show ?thesis using a b c s by blast
qed

theorem C3_witness:
  "length (probes (out (main Main_go header_decoder (sample_env silent_hops)))) \<le> 30 \<and>
   map (fst \<circ> snd) (probes (out (main Main_go header_decoder (sample_env silent_hops)))) =
     [1..<31] \<and>
   PrintDone \<notin> set (out (main Main_go header_decoder (sample_env silent_hops))) \<and>
   status (main Main_go header_decoder (sample_env silent_hops)) = Returned \<and>
   exit_code (main Main_go header_decoder (sample_env silent_hops)) = 0"
proof -
  let ?e = "sample_env silent_hops"
  have h: "2 \<le> length (args ?e) \<and> resolve ?e (args ?e ! 1) \<noteq> None \<and> icmp_listen_ok ?e \<and>
    (\<forall>k. 1 \<le> k \<and> k \<le> 30 \<longrightarrow> sends_ok (hops ?e k) \<and> read_res (hops ?e k) = ReadTimeout)"
    by (simp add: sample_env_def silent_hops_def good_io_def sends_ok_def)
  show ?thesis
    using C3_at_most_30_probes [of Main_go header_decoder ?e] h by blast
qed

text \<open>
  C9. A round whose three send steps succeed opens one new UDP socket, sets its TTL to the
  round's \<open>ttl\<close> and writes one datagram with an empty payload to port 33434 of the
  resolved address; nothing else is sent or opened in the round, and a round with a
  failed step sends nothing. Over a whole run the probes are, in order, one per hop
  \<open>k = 1, ..., m\<close> (\<open>m \<le> 30\<close>) with hop limit \<open>k\<close> on socket number \<open>k - 1\<close>; the sockets opened
  are numbered \<open>0, ..., n - 1\<close> with \<open>m \<le> n\<close>, each opened once, so no socket serves two
  hops.
\<close>

theorem C9_one_empty_datagram_per_ttl:
  "(sends_ok io \<longrightarrow>
      (\<exists>rest. out (iteration prog pm d io s) =
         out s @ [PrintTTL (ttl s), OpenUDP (nsock s), SendUDP (nsock s) (ttl s) [] d 33434,
           SetReadDeadline 2] @ rest \<and>
         probes rest = [] \<and> opened rest = [])) \<and>
   (\<not> sends_ok io \<longrightarrow> probes (out (iteration prog pm d io s)) = probes (out s)) \<and>
   (\<exists>m n dest. m \<le> 30 \<and> m \<le> n \<and>
      probes (out (main prog pm e)) = map (\<lambda>k. (k - 1, k, [], dest, 33434)) [1..<Suc m] \<and>
      (0 < m \<longrightarrow> resolve e (args e ! 1) = Some dest) \<and>
      opened (out (main prog pm e)) = [0..<n])"
proof -
  have a: "\<exists>rest. out (iteration prog pm d io s) =
         out s @ [PrintTTL (ttl s), OpenUDP (nsock s), SendUDP (nsock s) (ttl s) [] d 33434,
           SetReadDeadline 2] @ rest \<and>
         probes rest = [] \<and> opened rest = []" if "sends_ok io"
    using iteration_sent [OF that, of prog pm d s] by blast
  have b: "probes (out (iteration prog pm d io s)) = probes (out s)" if "\<not> sends_ok io"
    using that by (simp add: probes_iteration)
  obtain m0 m dest where mn: "m \<le> m0" "m0 \<le> maxHops"
    "probes (out (main prog pm e)) = map (\<lambda>k. (k - 1, k, [], dest, 33434)) [1..<Suc m]"
    "0 < m \<longrightarrow> resolve e (args e ! 1) = Some dest"
    using main_summary [of prog pm e] by blast
  have m30: "m \<le> 30" using mn(1,2) by (simp add: maxHops_def)
  have c: "\<exists>n. m \<le> n \<and> opened (out (main prog pm e)) = [0..<n]"
  proof (cases "2 \<le> length (args e) \<and> resolve e (args e ! 1) \<noteq> None \<and> icmp_listen_ok e")
    case False
    then have "probes (out (main prog pm e)) = [] \<and> opened (out (main prog pm e)) = []"
      using main_not_started [of e prog pm] by simp
    then have "m = 0 \<and> opened (out (main prog pm e)) = [0..<0]"
      using mn(3) by (simp del: upt_Suc add: upt_conv_Cons)
    then show ?thesis by blast
  next
    case True
    then obtain dst where dst: "resolve e (args e ! 1) = Some dst" by auto
    let ?s = "loop_entry (args e ! 1) dst"
    let ?l = "loop prog pm dst (hops e) ?s"
    have mf: "main prog pm e = finish ?l"
      using True dst by (simp add: main_started)
    have fin: "probes (out (main prog pm e)) = probes (out ?l)"
      "opened (out (main prog pm e)) = opened (out ?l)"
      using main_out_finish [of prog pm dst "hops e" "args e ! 1"] by (simp_all add: mf)
    have op: "opened (out ?l) = [0..<nsock ?l]"
      using loop_opened [of prog pm dst "hops e" ?s] by (simp add: opened_of_def)
    have "fst ` set (probes (out ?s)) \<subseteq> set (opened (out ?s))"
      by (simp add: probe_of_def)
    then have sub: "fst ` set (probes (out ?l)) \<subseteq> set (opened (out ?l))"
      by (rule loop_probe_sockets)
    have "m \<le> nsock ?l"
    proof (cases m)
      case 0
      then show ?thesis by simp
    next
      case (Suc j)
      then have "(j, m, [], dest, 33434) \<in> set (probes (out ?l))"
        using mn(3) unfolding fin(1) [symmetric] by (auto simp del: upt_Suc intro!: image_eqI [of _ _ m])
      then have "j \<in> fst ` set (probes (out ?l))" by force
      then have "j \<in> set (opened (out ?l))" using sub by blast
      then show ?thesis using Suc unfolding op by simp
    qed
    then show ?thesis using op fin(2) by auto
  qed
  show ?thesis using a b c m30 mn(3,4) by blast
qed

theorem C9_witness:
  "\<exists>rest. out (iteration Main_go header_decoder ''93.184.216.34'' (scenario_hops 1)
       (loop_entry ''example.com'' ''93.184.216.34'')) =
     [PrintStart ''example.com'' ''93.184.216.34'', OpenICMP, PrintTTL 1, OpenUDP 0,
      SendUDP 0 1 [] ''93.184.216.34'' 33434, SetReadDeadline 2] @ rest \<and>
     probes rest = [] \<and> opened rest = []"
proof -
  have h: "sends_ok (scenario_hops 1)"
    by (simp add: scenario_hops_def good_io_def sends_ok_def)
  show ?thesis
    using C9_one_empty_datagram_per_ttl [of "scenario_hops 1" Main_go header_decoder
      "''93.184.216.34''" "loop_entry ''example.com'' ''93.184.216.34''", THEN conjunct1] h
    by simp
qed

text \<open>
  C7, at a failing input. Hop 1 answers time exceeded and the write of round 2 fails. The
  run opens the ICMP connection and ends in \<open>log.Fatalf\<close>; the deferred calls, the close
  of the ICMP connection among them, are still on the stack when the process exits with
  code 1, and no close appears in the trace. Both files behave so.
\<close>

theorem C7_fatal_exit_skips_deferred_close:
  "out (main Main_go header_decoder (sample_env send_fail_hops)) =
     [PrintStart ''example.com'' ''93.184.216.34'', OpenICMP,
      PrintTTL 1, OpenUDP 0, SendUDP 0 1 [] ''93.184.216.34'' 33434, SetReadDeadline 2,
      PrintPeer ''10.0.0.1'', PrintTimeExceeded,
      PrintTTL 2, OpenUDP 1, LogFatal SendError] \<and>
   deferred (main Main_go header_decoder (sample_env send_fail_hops)) =
     [CloseUDP 1, CloseUDP 0, CloseICMP] \<and>
   exit_code (main Main_go header_decoder (sample_env send_fail_hops)) = 1 \<and>
   CloseICMP \<notin> set (out (main Main_go header_decoder (sample_env send_fail_hops))) \<and>
   CloseICMP \<notin> set (out (main Student_style header_decoder (sample_env send_fail_hops)))"
  by (simp add: run_defs send_fail_hops_def)



end
